theory Spec2Isabelle
  imports Main "HOL-Library.Multiset"
begin

section \<open>Oslo cargo flight tracker (script.js): a shallow embedding\<close>

text \<open>
  The script fetches two XML feeds, parses them with the browser's \<open>DOMParser\<close>, keeps the
  flights of cargo operators, sorts them by scheduled time and renders a table.

  Conventions of the embedding.
  \<^item> A JavaScript string is a \<open>string\<close>: the bytes of its text in UTF-8, so that a
    character outside ASCII takes two or three elements. Equality, concatenation,
    \<open>includes\<close> and \<open>trim\<close> mean the same on the bytes as on the characters. Case mapping
    is modelled on the 26 ASCII letters: \<open>toUpperCase\<close> and \<open>toLowerCase\<close> leave every other
    byte alone, which is exact for text whose letters are ASCII.
  \<^item> \<open>null\<close> and \<open>undefined\<close> results of DOM calls are \<open>None\<close>.
  \<^item> A call of a function of the script returns a completion \<open>js_error + 'a\<close>: \<open>Inl e\<close>
    when the call throws \<open>e\<close>, \<open>Inr v\<close> when it returns \<open>v\<close>.
  \<^item> What the browser provides (the XML parser behind \<open>DOMParser\<close>, \<open>Date\<close> parsing,
    \<open>Intl.DateTimeFormat\<close>) is a parameter, the record \<open>platform\<close>; theorems hold for every
    platform.
\<close>

subsection \<open>Strings\<close>

definition lowerLetters :: string where
  "lowerLetters = ''abcdefghijklmnopqrstuvwxyz''"

definition upperLetters :: string where
  "upperLetters = ''ABCDEFGHIJKLMNOPQRSTUVWXYZ''"

definition upperChar :: "char \<Rightarrow> char" where
  "upperChar c = (case map_of (zip lowerLetters upperLetters) c of Some u \<Rightarrow> u | None \<Rightarrow> c)"

definition lowerChar :: "char \<Rightarrow> char" where
  "lowerChar c = (case map_of (zip upperLetters lowerLetters) c of Some l \<Rightarrow> l | None \<Rightarrow> c)"

definition toUpperCase :: "string \<Rightarrow> string" where
  "toUpperCase s = map upperChar s"

definition toLowerCase :: "string \<Rightarrow> string" where
  "toLowerCase s = map lowerChar s"

text \<open>\<open>s\<close> begins with \<open>kw\<close>.\<close>

fun startsWith :: "string \<Rightarrow> string \<Rightarrow> bool" where
  "startsWith s [] = True"
| "startsWith [] (k # ks) = False"
| "startsWith (c # cs) (k # ks) = (c = k \<and> startsWith cs ks)"

text \<open>
  \<open>String.prototype.trim\<close> removes the white space and line terminator characters of the
  language standard at both ends: TAB, LF, VT, FF, CR, SPACE, U+00A0, U+1680, U+2000 to
  U+200A, U+2028, U+2029, U+202F, U+205F, U+3000 and U+FEFF, listed here in UTF-8.
\<close>

definition whiteSpaceCodes :: "string list" where
  "whiteSpaceCodes =
     [[CHR 0x09], [CHR 0x0A], [CHR 0x0B], [CHR 0x0C], [CHR 0x0D], [CHR 0x20],
      [CHR 0xC2, CHR 0xA0], [CHR 0xE1, CHR 0x9A, CHR 0x80],
      [CHR 0xE2, CHR 0x80, CHR 0x80], [CHR 0xE2, CHR 0x80, CHR 0x81],
      [CHR 0xE2, CHR 0x80, CHR 0x82], [CHR 0xE2, CHR 0x80, CHR 0x83],
      [CHR 0xE2, CHR 0x80, CHR 0x84], [CHR 0xE2, CHR 0x80, CHR 0x85],
      [CHR 0xE2, CHR 0x80, CHR 0x86], [CHR 0xE2, CHR 0x80, CHR 0x87],
      [CHR 0xE2, CHR 0x80, CHR 0x88], [CHR 0xE2, CHR 0x80, CHR 0x89],
      [CHR 0xE2, CHR 0x80, CHR 0x8A], [CHR 0xE2, CHR 0x80, CHR 0xA8],
      [CHR 0xE2, CHR 0x80, CHR 0xA9], [CHR 0xE2, CHR 0x80, CHR 0xAF],
      [CHR 0xE2, CHR 0x81, CHR 0x9F], [CHR 0xE3, CHR 0x80, CHR 0x80],
      [CHR 0xEF, CHR 0xBB, CHR 0xBF]]"

text \<open>The first of the given codes that the text begins with, if there is one.\<close>

definition leadingToken :: "string list \<Rightarrow> string \<Rightarrow> string option" where
  "leadingToken ts s = find (\<lambda>w. w \<noteq> [] \<and> startsWith s w) ts"

text \<open>Removing such codes from the front for as long as there is one.\<close>

function dropTokens :: "string list \<Rightarrow> string \<Rightarrow> string" where
  "dropTokens ts s =
     (case leadingToken ts s of None \<Rightarrow> s | Some w \<Rightarrow> dropTokens ts (drop (length w) s))"
  by pat_completeness auto
termination
proof (relation "measure (\<lambda>(ts, s). length s)")
  show "wf (measure (\<lambda>(ts, s). length s))" by simp
next
  fix ts :: "string list" and s w :: string
  assume "leadingToken ts s = Some w"
  then have "w \<noteq> []" and "startsWith s w"
    by (auto simp: leadingToken_def find_Some_iff)
  then have "s \<noteq> []" by (cases s; cases w) auto
  with \<open>w \<noteq> []\<close> show "((ts, drop (length w) s), (ts, s)) \<in> measure (\<lambda>(ts, s). length s)"
    by simp
qed

declare dropTokens.simps [simp del]

definition trimStart :: "string \<Rightarrow> string" where
  "trimStart s = dropTokens whiteSpaceCodes s"

definition trimEnd :: "string \<Rightarrow> string" where
  "trimEnd s = rev (dropTokens (map rev whiteSpaceCodes) (rev s))"

definition trim :: "string \<Rightarrow> string" where
  "trim s = trimEnd (trimStart s)"

text \<open>\<open>s.includes(kw)\<close>: \<open>kw\<close> occurs in \<open>s\<close> as a contiguous substring.\<close>

fun includesStr :: "string \<Rightarrow> string \<Rightarrow> bool" where
  "includesStr [] kw = (kw = [])"
| "includesStr (c # cs) kw = (startsWith (c # cs) kw \<or> includesStr cs kw)"

subsection \<open>JavaScript values, errors and objects\<close>

text \<open>
  The errors the script can meet. The message of an error raised by the engine itself is
  engine specific; the model uses one representative text for each.
\<close>

datatype js_error = TypeError (message: string) | RangeError (message: string)

text \<open>
  The result of reading a property \<open>obj[key]\<close> of an object literal whose own properties
  are strings: an own property, \<open>undefined\<close>, or a member inherited from
  \<open>Object.prototype\<close> (a function or an object: truthy, and not a string).
\<close>

datatype js_value = Undefined | Str string | ProtoMember string

type_synonym js_object = "string \<rightharpoonup> string"

definition objectPrototypeKeys :: "string list" where
  "objectPrototypeKeys =
     [''constructor'', ''hasOwnProperty'', ''isPrototypeOf'', ''propertyIsEnumerable'',
      ''toLocaleString'', ''toString'', ''valueOf'', ''__defineGetter__'',
      ''__defineSetter__'', ''__lookupGetter__'', ''__lookupSetter__'', ''__proto__'']"

definition getProperty :: "js_object \<Rightarrow> string \<Rightarrow> js_value" where
  "getProperty obj key =
     (case obj key of
        Some v \<Rightarrow> Str v
      | None \<Rightarrow> if key \<in> set objectPrototypeKeys then ProtoMember key else Undefined)"

text \<open>Truthiness, and \<open>a || b\<close> on values.\<close>

fun truthy :: "js_value \<Rightarrow> bool" where
  "truthy Undefined = False"
| "truthy (Str s) = (s \<noteq> [])"
| "truthy (ProtoMember k) = True"

definition orElse :: "js_value \<Rightarrow> js_value \<Rightarrow> js_value" where
  "orElse a b = (if truthy a then a else b)"

text \<open>Truthiness of a value that is a string or \<open>null\<close>.\<close>

fun truthyStr :: "string option \<Rightarrow> bool" where
  "truthyStr None = False"
| "truthyStr (Some s) = (s \<noteq> [])"

subsection \<open>The DOM of an XML document\<close>

text \<open>
  Element and text nodes (comments and processing instructions take no part in
  \<open>getElementsByTagName\<close>, \<open>getAttribute\<close> or \<open>textContent\<close>). A document is the list of its
  child nodes.
\<close>

datatype node = Element (tagName: string) (attributes: "(string \<times> string) list")
                        (childNodes: "node list")
              | Text string

type_synonym document = "node list"

text \<open>
  The elements named \<open>tag\<close> in the subtree of a node, the node included, in tree order.
  (The tags the script asks for are fixed names, never the wildcard \<open>*\<close>.)
\<close>

fun subtreeElements :: "string \<Rightarrow> node \<Rightarrow> node list" where
  "subtreeElements tag (Text t) = []"
| "subtreeElements tag (Element n as cs) =
     (if n = tag then [Element n as cs] else []) @ concat (map (subtreeElements tag) cs)"

text \<open>\<open>doc.getElementsByTagName(tag)\<close> and \<open>el.getElementsByTagName(tag)\<close> (descendants only).\<close>

definition docElementsByTagName :: "document \<Rightarrow> string \<Rightarrow> node list" where
  "docElementsByTagName doc tag = concat (map (subtreeElements tag) doc)"

fun getElementsByTagName :: "node \<Rightarrow> string \<Rightarrow> node list" where
  "getElementsByTagName (Text t) tag = []"
| "getElementsByTagName (Element n as cs) tag = concat (map (subtreeElements tag) cs)"

text \<open>\<open>collection[0]\<close>: the first element, or \<open>undefined\<close>.\<close>

fun item0 :: "node list \<Rightarrow> node option" where
  "item0 [] = None"
| "item0 (x # xs) = Some x"

fun getAttribute :: "node \<Rightarrow> string \<Rightarrow> string option" where
  "getAttribute (Text t) name = None"
| "getAttribute (Element n as cs) name = map_of as name"

fun textContent :: "node \<Rightarrow> string" where
  "textContent (Text t) = t"
| "textContent (Element n as cs) = concat (map textContent cs)"

subsection \<open>Flight records\<close>

text \<open>The object \<open>parseFlights\<close> pushes for a flight; \<open>null\<close> is \<open>None\<close>.\<close>

record flight =
  airline :: string
  flightId :: string
  scheduleTime :: string
  arrDep :: string
  otherAirport :: string
  statusCode :: "string option"
  statusTime :: "string option"

subsection \<open>The platform\<close>

text \<open>
  \<^item> \<open>parseFromString s\<close>: the document \<open>new DOMParser().parseFromString(s, "application/xml")\<close>
    returns. The call never throws: for a payload that is not well-formed XML the DOM
    standard has it return a document that holds a \<open>parsererror\<close> element.
  \<^item> \<open>dateValue s\<close>: the time value of \<open>new Date(s)\<close> in milliseconds, \<open>None\<close> for an
    Invalid Date.
  \<^item> \<open>formatToParts t\<close>: the parts (type, value) that the \<open>en-GB\<close>, \<open>Europe/Oslo\<close> formatter
    of \<open>formatLocalTime\<close> returns for the time value \<open>t\<close>.
  \<^item> \<open>arraySort comparefn xs\<close>: the array that \<open>xs.sort(comparefn)\<close> leaves, where a result
    \<open>NaN\<close> of the comparator is \<open>None\<close>. The language standard fixes it for a consistent
    comparator only (\<open>conformingSort\<close> below); otherwise the order is the engine's own.
\<close>

record platform =
  parseFromString :: "string \<Rightarrow> document"
  dateValue :: "string \<Rightarrow> int option"
  formatToParts :: "int \<Rightarrow> (string \<times> string) list"
  arraySort :: "(flight \<Rightarrow> flight \<Rightarrow> int option) \<Rightarrow> flight list \<Rightarrow> flight list"

definition isParserErrorDocument :: "document \<Rightarrow> bool" where
  "isParserErrorDocument doc = (docElementsByTagName doc ''parsererror'' \<noteq> [])"

subsection \<open>parseAirlineNames\<close>

text \<open>
  Neither parser has a step that can throw: \<open>parseFromString\<close> returns a document for every
  string, \<open>getElementsByTagName\<close> and \<open>getAttribute\<close> return a collection and a string or
  \<open>null\<close>, and the \<open>textContent\<close> of an element is a string. Both therefore complete
  normally on every path.
\<close>

type_synonym directory = js_object

text \<open>The body of the loop: one \<open>airlineName\<close> element, the map so far.\<close>

definition addAirline :: "node \<Rightarrow> directory \<Rightarrow> directory" where
  "addAirline el m =
     (let code = getAttribute el ''code''; name = getAttribute el ''name''
      in if truthyStr code \<and> truthyStr name
         then m(toUpperCase (the code) \<mapsto> the name)
         else m)"

fun airlineLoop :: "node list \<Rightarrow> directory \<Rightarrow> directory" where
  "airlineLoop [] m = m"
| "airlineLoop (el # els) m = airlineLoop els (addAirline el m)"

definition parseAirlineNames :: "platform \<Rightarrow> string \<Rightarrow> js_error + directory" where
  "parseAirlineNames P xmlString =
     (let doc = parseFromString P xmlString;
          airlineElems = docElementsByTagName doc ''airlineName''
      in Inr (airlineLoop airlineElems Map.empty))"

subsection \<open>parseFlights\<close>

definition getText :: "node \<Rightarrow> string \<Rightarrow> string" where
  "getText f tag =
     (case item0 (getElementsByTagName f tag) of
        None \<Rightarrow> []
      | Some el \<Rightarrow> trim (textContent el))"

text \<open>The body of the loop: the record pushed for one \<open>flight\<close> element.\<close>

definition flightRecord :: "node \<Rightarrow> flight" where
  "flightRecord f =
     (let statusEl = item0 (getElementsByTagName f ''status'')
      in \<lparr> airline = toUpperCase (getText f ''airline''),
           flightId = getText f ''flight_id'',
           scheduleTime = getText f ''schedule_time'',
           arrDep = getText f ''arr_dep'',
           otherAirport = getText f ''airport'',
           statusCode = (case statusEl of None \<Rightarrow> None | Some el \<Rightarrow> getAttribute el ''code''),
           statusTime = (case statusEl of None \<Rightarrow> None | Some el \<Rightarrow> getAttribute el ''time'') \<rparr>)"

fun flightLoop :: "node list \<Rightarrow> flight list \<Rightarrow> flight list" where
  "flightLoop [] flights = flights"
| "flightLoop (f # fs) flights = flightLoop fs (flights @ [flightRecord f])"

definition parseFlights :: "platform \<Rightarrow> string \<Rightarrow> js_error + flight list" where
  "parseFlights P xmlString =
     (let doc = parseFromString P xmlString;
          flightElems = docElementsByTagName doc ''flight''
      in Inr (flightLoop flightElems []))"

subsection \<open>formatLocalTime\<close>

text \<open>
  \<open>parts.find((p) => p.type === ty).value\<close>: reading \<open>value\<close> of \<open>undefined\<close> throws when
  no part has the type.
\<close>

fun findPart :: "(string \<times> string) list \<Rightarrow> string \<Rightarrow> js_error + string" where
  "findPart [] ty = Inl (TypeError ''Cannot read properties of undefined'')"
| "findPart ((t, v) # ps) ty = (if t = ty then Inr v else findPart ps ty)"

text \<open>\<open>formatToParts\<close> throws a \<open>RangeError\<close> for an Invalid Date.\<close>

definition formatLocalTime :: "platform \<Rightarrow> string option \<Rightarrow> js_error + string" where
  "formatLocalTime P isoTime =
     (case isoTime of
        None \<Rightarrow> Inr []
      | Some isoText \<Rightarrow>
          if isoText = [] then Inr []
          else
            (case dateValue P isoText of
               None \<Rightarrow> Inl (RangeError ''Invalid time value'')
             | Some t \<Rightarrow>
                 (let parts = formatToParts P t in
                  case findPart parts ''day'' of Inl e \<Rightarrow> Inl e | Inr day \<Rightarrow>
                  case findPart parts ''month'' of Inl e \<Rightarrow> Inl e | Inr month \<Rightarrow>
                  case findPart parts ''hour'' of Inl e \<Rightarrow> Inl e | Inr hour \<Rightarrow>
                  case findPart parts ''minute'' of Inl e \<Rightarrow> Inl e | Inr minute \<Rightarrow>
                    Inr (day @ '' '' @ month @ '' '' @ hour @ '':'' @ minute))))"

subsection \<open>getStatusDescription\<close>

definition statusMap :: js_object where
  "statusMap = map_of
     [(''A'', ''Arrived''), (''C'', ''Cancelled''), (''D'', ''Departed''),
      (''E'', ''New time''), (''N'', ''New info'')]"

definition getStatusDescription ::
    "platform \<Rightarrow> string option \<Rightarrow> string option \<Rightarrow> js_error + js_value" where
  "getStatusDescription P code time =
     (case code of
        None \<Rightarrow> Inr (Str [])
      | Some c \<Rightarrow>
          if c = [] then Inr (Str [])
          else
            (let desc = orElse (getProperty statusMap c) (Str c)
             in if c = ''E'' \<and> truthyStr time
                then (case formatLocalTime P time of
                        Inl e \<Rightarrow> Inl e
                      | Inr t \<Rightarrow> Inr (Str (''New time '' @ t)))
                else Inr desc))"

subsection \<open>isCargoFlight\<close>

definition CARGO_CODES :: "string list" where
  "CARGO_CODES =
     [''UPS'', ''5X'', ''BCS'', ''ES'', ''QY'', ''D0'', ''APF'', ''HP'', ''QAF'', ''Q7'', ''QR'']"

definition CARGO_KEYWORDS :: "string list" where
  "CARGO_KEYWORDS =
     [''cargo'', ''dhl'', ''ups'', ''amapola'', ''qatar'', ''freight'', ''postal'']"

text \<open>\<open>airlinesMap[code] || ""\<close>: the display name the directory resolves a code to.\<close>

definition displayName :: "directory \<Rightarrow> string \<Rightarrow> js_value" where
  "displayName airlinesMap code = orElse (getProperty airlinesMap code) (Str [])"

text \<open>
  \<open>v.toLowerCase()\<close>: the call throws when \<open>v\<close> is not a string, which happens here when the
  code names a member of \<open>Object.prototype\<close>.
\<close>

fun toLowerCaseOf :: "js_value \<Rightarrow> js_error + string" where
  "toLowerCaseOf (Str v) = Inr (toLowerCase v)"
| "toLowerCaseOf (ProtoMember k) = Inl (TypeError ''toLowerCase is not a function'')"
| "toLowerCaseOf Undefined = Inl (TypeError ''Cannot read properties of undefined'')"

definition isCargoFlight :: "flight \<Rightarrow> directory \<Rightarrow> js_error + bool" where
  "isCargoFlight flight airlinesMap =
     (let code = airline flight
      in if code \<in> set CARGO_CODES then Inr True
         else (case toLowerCaseOf (displayName airlinesMap code) of
                 Inl e \<Rightarrow> Inl e
               | Inr name \<Rightarrow> Inr (list_ex (\<lambda>kw. includesStr name kw) CARGO_KEYWORDS)))"

subsection \<open>renderFlights\<close>

text \<open>
  The table body is the list of its rows. A row is either one cell spanning the six columns
  (a message) or the six cells of a flight; a cell holds the value assigned to its
  \<open>textContent\<close>.
\<close>

datatype row = MessageRow string
             | FlightRow string js_value string string string js_value

text \<open>The body of the \<open>forEach\<close> callback up to \<open>appendChild\<close>: the row of one flight.\<close>

definition flightRow :: "platform \<Rightarrow> directory \<Rightarrow> flight \<Rightarrow> js_error + row" where
  "flightRow P airlinesMap flight =
     (case formatLocalTime P (Some (scheduleTime flight)) of
        Inl e \<Rightarrow> Inl e
      | Inr timeText \<Rightarrow>
          (case getStatusDescription P (statusCode flight) (statusTime flight) of
             Inl e \<Rightarrow> Inl e
           | Inr statusText \<Rightarrow>
               Inr (FlightRow timeText
                      (orElse (getProperty airlinesMap (airline flight)) (Str (airline flight)))
                      (flightId flight)
                      (if arrDep flight = ''A'' then ''Arrival'' else ''Departure'')
                      (otherAirport flight)
                      statusText)))"

text \<open>
  \<open>forEach\<close> over the flights, threading the table body; a throw leaves the rows appended
  so far and is returned with them.
\<close>

fun renderLoop ::
    "platform \<Rightarrow> directory \<Rightarrow> flight list \<Rightarrow> row list \<Rightarrow> row list \<times> js_error option" where
  "renderLoop P airlinesMap [] tbody = (tbody, None)"
| "renderLoop P airlinesMap (f # fs) tbody =
     (case flightRow P airlinesMap f of
        Inl e \<Rightarrow> (tbody, Some e)
      | Inr r \<Rightarrow> renderLoop P airlinesMap fs (tbody @ [r]))"

definition renderFlights ::
    "platform \<Rightarrow> flight list \<Rightarrow> directory \<Rightarrow> row list \<Rightarrow> row list \<times> js_error option" where
  "renderFlights P flights airlinesMap tbody =
     (let cleared = [] :: row list
      in if length flights = 0
         then (cleared @ [MessageRow ''No cargo flights found in the selected timeframe.''], None)
         else renderLoop P airlinesMap flights cleared)"

subsection \<open>Filtering and sorting\<close>

text \<open>
  \<open>allFlights.filter((flight) => isCargoFlight(flight, airlinesMap))\<close>: a throw of the
  callback ends the call.
\<close>

fun filterCargo :: "directory \<Rightarrow> flight list \<Rightarrow> js_error + flight list" where
  "filterCargo airlinesMap [] = Inr []"
| "filterCargo airlinesMap (f # fs) =
     (case isCargoFlight f airlinesMap of
        Inl e \<Rightarrow> Inl e
      | Inr keep \<Rightarrow>
          (case filterCargo airlinesMap fs of
             Inl e \<Rightarrow> Inl e
           | Inr rest \<Rightarrow> Inr (if keep then f # rest else rest)))"

text \<open>
  The comparator \<open>new Date(a.scheduleTime) - new Date(b.scheduleTime)\<close>: the difference of
  the two time values, \<open>NaN\<close> (here \<open>None\<close>) when one of the dates is invalid. Time
  values are whole numbers of milliseconds, so the floating-point difference has the sign
  of the integer difference, which is all the sort reads.
\<close>

definition compareSchedule :: "platform \<Rightarrow> flight \<Rightarrow> flight \<Rightarrow> int option" where
  "compareSchedule P a b =
     (case dateValue P (scheduleTime a) of
        None \<Rightarrow> None
      | Some x \<Rightarrow> (case dateValue P (scheduleTime b) of None \<Rightarrow> None | Some y \<Rightarrow> Some (x - y)))"

text \<open>The engine reads a \<open>NaN\<close> result of the comparator as \<open>+0\<close>.\<close>

definition sortCompare :: "('a \<Rightarrow> 'a \<Rightarrow> int option) \<Rightarrow> 'a \<Rightarrow> 'a \<Rightarrow> int" where
  "sortCompare comparefn x y = (case comparefn x y of None \<Rightarrow> 0 | Some v \<Rightarrow> v)"

subsection \<open>loadFlights\<close>

text \<open>
  The network is an input: how each of the two \<open>fetch\<close> promises settles and, when both
  reject, which rejection \<open>Promise.all\<close> sees first. A response carries its HTTP status and
  the outcome of \<open>text()\<close>. \<open>fetch\<close> fulfils for every HTTP status; it rejects only when the
  request itself fails.
\<close>

datatype 'a promise = Rejected js_error | Fulfilled 'a

datatype response = Response (status: nat) (bodyText: "string promise")

record network =
  flightFetch :: "response promise"
  airlinesFetch :: "response promise"
  airlinesRejectsFirst :: bool

definition promiseAll :: "network \<Rightarrow> (response \<times> response) promise" where
  "promiseAll net =
     (case flightFetch net of
        Rejected e1 \<Rightarrow>
          (case airlinesFetch net of
             Rejected e2 \<Rightarrow> Rejected (if airlinesRejectsFirst net then e2 else e1)
           | Fulfilled airlinesRes \<Rightarrow> Rejected e1)
      | Fulfilled flightRes \<Rightarrow>
          (case airlinesFetch net of
             Rejected e2 \<Rightarrow> Rejected e2
           | Fulfilled airlinesRes \<Rightarrow> Fulfilled (flightRes, airlinesRes)))"

text \<open>Lines 177 to 180: parse both payloads, filter, sort.\<close>

definition selectCargoFlights ::
    "platform \<Rightarrow> string \<Rightarrow> string \<Rightarrow> js_error + (flight list \<times> directory)" where
  "selectCargoFlights P flightsXml airlinesXml =
     (case parseAirlineNames P airlinesXml of
        Inl e \<Rightarrow> Inl e
      | Inr airlinesMap \<Rightarrow>
          (case parseFlights P flightsXml of
             Inl e \<Rightarrow> Inl e
           | Inr allFlights \<Rightarrow>
               (case filterCargo airlinesMap allFlights of
                  Inl e \<Rightarrow> Inl e
                | Inr cargoFlights \<Rightarrow>
                    Inr (arraySort P (compareSchedule P) cargoFlights, airlinesMap))))"

text \<open>
  The \<open>try\<close> block, from the table body it starts with: the table body it leaves and the
  error it throws, if any.
\<close>

definition tryBlock :: "platform \<Rightarrow> network \<Rightarrow> row list \<Rightarrow> row list \<times> js_error option" where
  "tryBlock P net tbody =
     (case promiseAll net of
        Rejected e \<Rightarrow> (tbody, Some e)
      | Fulfilled (flightRes, airlinesRes) \<Rightarrow>
          (case bodyText flightRes of
             Rejected e \<Rightarrow> (tbody, Some e)
           | Fulfilled flightsXml \<Rightarrow>
               (case bodyText airlinesRes of
                  Rejected e \<Rightarrow> (tbody, Some e)
                | Fulfilled airlinesXml \<Rightarrow>
                    (case selectCargoFlights P flightsXml airlinesXml of
                       Inl e \<Rightarrow> (tbody, Some e)
                     | Inr (cargoFlights, airlinesMap) \<Rightarrow>
                         renderFlights P cargoFlights airlinesMap tbody))))"

text \<open>The page: the rows of the table body and what was written to the console.\<close>

record page =
  tableBody :: "row list"
  console :: "js_error list"

text \<open>The loading row ends with U+2026, here its three UTF-8 bytes.\<close>

definition loadingRow :: row where
  "loadingRow = MessageRow (''Loading flights'' @ [CHR 0xE2, CHR 0x80, CHR 0xA6])"

definition loadFlights :: "platform \<Rightarrow> network \<Rightarrow> page \<Rightarrow> page" where
  "loadFlights P net pg =
     (case tryBlock P net [loadingRow] of
        (tbody, None) \<Rightarrow> pg\<lparr>tableBody := tbody\<rparr>
      | (tbody, Some err) \<Rightarrow>
          pg\<lparr>tableBody := [MessageRow (''Error fetching flight data: '' @ message err)],
             console := console pg @ [err]\<rparr>)"

subsection \<open>Properties\<close>

text \<open>A text that is a sequence of white space characters.\<close>

inductive tokenSeq :: "string list \<Rightarrow> string \<Rightarrow> bool" for ts where
  empty: "tokenSeq ts []"
| token: "w \<in> set ts \<Longrightarrow> tokenSeq ts s \<Longrightarrow> tokenSeq ts (w @ s)"

definition whiteSpaceOnly :: "string \<Rightarrow> bool" where
  "whiteSpaceOnly s = tokenSeq whiteSpaceCodes s"

text \<open>A text that neither begins nor ends with a white space character.\<close>

definition stripped :: "string \<Rightarrow> bool" where
  "stripped s = (leadingToken whiteSpaceCodes s = None \<and>
                 leadingToken (map rev whiteSpaceCodes) (rev s) = None)"

text \<open>\<open>core\<close> is \<open>raw\<close> with the white space at its two ends removed.\<close>

definition strippedOf :: "string \<Rightarrow> string \<Rightarrow> bool" where
  "strippedOf raw core =
     (\<exists>p q. raw = p @ core @ q \<and> whiteSpaceOnly p \<and> whiteSpaceOnly q \<and> stripped core)"

text \<open>The text of the first sub-element of a flight element with a tag, empty without one.\<close>

definition rawText :: "node \<Rightarrow> string \<Rightarrow> string" where
  "rawText f tag =
     (case item0 (getElementsByTagName f tag) of None \<Rightarrow> [] | Some el \<Rightarrow> textContent el)"

text \<open>
  What the description of the directory parser says of one source record: the entry it
  contributes, if it has a non-empty code and a non-empty name.
\<close>

definition specEntry :: "node \<Rightarrow> (string \<times> string) option" where
  "specEntry el =
     (case getAttribute el ''code'' of
        None \<Rightarrow> None
      | Some code \<Rightarrow>
          (case getAttribute el ''name'' of
             None \<Rightarrow> None
           | Some name \<Rightarrow>
               if code \<noteq> [] \<and> name \<noteq> [] then Some (toUpperCase code, name) else None))"

text \<open>The key under which a record contributes an entry, if it does.\<close>

definition specKey :: "node \<Rightarrow> string option" where
  "specKey el = map_option fst (specEntry el)"

text \<open>
  A transport failure: one of the two \<open>fetch\<close> promises rejects, or reading the body of one
  of the two responses does.
\<close>

fun rejected :: "'a promise \<Rightarrow> bool" where
  "rejected (Rejected e) = True"
| "rejected (Fulfilled v) = False"

fun bodyRejected :: "response promise \<Rightarrow> bool" where
  "bodyRejected (Rejected e) = False"
| "bodyRejected (Fulfilled res) = rejected (bodyText res)"

definition transportFailure :: "network \<Rightarrow> bool" where
  "transportFailure net =
     (rejected (flightFetch net) \<or> rejected (airlinesFetch net) \<or>
      bodyRejected (flightFetch net) \<or> bodyRejected (airlinesFetch net))"

text \<open>A response with a status outside 200 to 299.\<close>

fun nonSuccess :: "response promise \<Rightarrow> bool" where
  "nonSuccess (Rejected e) = False"
| "nonSuccess (Fulfilled res) = (\<not> (200 \<le> status res \<and> status res \<le> 299))"

text \<open>
  The page after an error was surfaced: the table body is the one row of the message, and
  the error is logged.
\<close>

definition errorPage :: "page \<Rightarrow> js_error \<Rightarrow> page" where
  "errorPage pg e =
     pg\<lparr>tableBody := [MessageRow (''Error fetching flight data: '' @ message e)],
        console := console pg @ [e]\<rparr>"

text \<open>
  The rows are the complete table of a list of flights: the placeholder row for no flight,
  else the row of each flight, in the order of the flights.
\<close>

definition completeTable :: "platform \<Rightarrow> directory \<Rightarrow> flight list \<Rightarrow> row list \<Rightarrow> bool" where
  "completeTable P airlinesMap flights rows =
     (if flights = []
      then rows = [MessageRow ''No cargo flights found in the selected timeframe.'']
      else map (flightRow P airlinesMap) flights = map Inr rows)"

text \<open>
  What the language standard guarantees of \<open>Array.prototype.sort\<close>, for a comparator that
  is the difference of a whole-number key (a consistent comparison function): the result
  is a rearrangement of the array, no element is followed by one the comparator puts
  before it, and elements that compare equal keep their order (the sort is stable).
\<close>

definition keyComparator :: "('a \<Rightarrow> 'a \<Rightarrow> int option) \<Rightarrow> ('a \<Rightarrow> int) \<Rightarrow> 'a list \<Rightarrow> bool" where
  "keyComparator comparefn key xs =
     (\<forall>a \<in> set xs. \<forall>b \<in> set xs. comparefn a b = Some (key a - key b))"

definition conformingSort :: "(('a \<Rightarrow> 'a \<Rightarrow> int option) \<Rightarrow> 'a list \<Rightarrow> 'a list) \<Rightarrow> bool" where
  "conformingSort sortFn =
     (\<forall>comparefn key xs. keyComparator comparefn key xs \<longrightarrow>
        mset (sortFn comparefn xs) = mset xs \<and>
        sorted_wrt (\<lambda>a b. sortCompare comparefn a b \<le> 0) (sortFn comparefn xs) \<and>
        (\<forall>x \<in> set xs. filter (\<lambda>y. sortCompare comparefn x y = 0) (sortFn comparefn xs) =
                       filter (\<lambda>y. sortCompare comparefn x y = 0) xs))"

text \<open>The time value of a flight's scheduled time on a platform.\<close>

definition scheduleValue :: "platform \<Rightarrow> flight \<Rightarrow> int option" where
  "scheduleValue P f = dateValue P (scheduleTime f)"

subsection \<open>The sort of V8\<close>

text \<open>
  \<open>Array.prototype.sort\<close> as V8 (Chrome, Node.js, Edge) runs it on an array of fewer than
  64 elements: \<open>CountAndMakeRun\<close> finds the run the array begins with and reverses it if
  it descends, \<open>BinaryInsertionSort\<close> then inserts the elements after the run one by one,
  at the place a binary search in the part before them gives. (With 64 elements or more V8
  cuts the array into several runs and merges them, which this definition does not
  follow: there it gives what V8 gives when the comparator is consistent, the one stable
  ascending order.) Indices stay within the array: \<open>mid < start < high\<close>.
\<close>

fun runTail :: "('a \<Rightarrow> 'a \<Rightarrow> int option) \<Rightarrow> bool \<Rightarrow> 'a \<Rightarrow> 'a list \<Rightarrow> nat" where
  "runTail comparefn isDescending previousElement [] = 0"
| "runTail comparefn isDescending previousElement (currentElement # rest) =
     (let order = sortCompare comparefn currentElement previousElement
      in if (if isDescending then order \<ge> 0 else order < 0) then 0
         else Suc (runTail comparefn isDescending currentElement rest))"

fun countAndMakeRun :: "('a \<Rightarrow> 'a \<Rightarrow> int option) \<Rightarrow> 'a list \<Rightarrow> 'a list \<times> nat" where
  "countAndMakeRun comparefn [] = ([], 0)"
| "countAndMakeRun comparefn [x] = ([x], 1)"
| "countAndMakeRun comparefn (elementHigh # elementLow # rest) =
     (let isDescending = (sortCompare comparefn elementLow elementHigh < 0);
          runLength = 2 + runTail comparefn isDescending elementLow rest;
          workArray = elementHigh # elementLow # rest
      in (if isDescending then rev (take runLength workArray) @ drop runLength workArray
          else workArray, runLength))"

function binarySearch ::
    "('a \<Rightarrow> 'a \<Rightarrow> int option) \<Rightarrow> 'a \<Rightarrow> 'a list \<Rightarrow> nat \<Rightarrow> nat \<Rightarrow> nat" where
  "binarySearch comparefn pivot workArray left right =
     (if left < right
      then (let mid = left + (right - left) div 2
            in if sortCompare comparefn pivot (workArray ! mid) < 0
               then binarySearch comparefn pivot workArray left mid
               else binarySearch comparefn pivot workArray (mid + 1) right)
      else left)"
  by pat_completeness auto
termination
  by (relation "measure (\<lambda>(comparefn, pivot, workArray, left, right). right - left)") auto

declare binarySearch.simps [simp del]

function binaryInsertionSort ::
    "('a \<Rightarrow> 'a \<Rightarrow> int option) \<Rightarrow> nat \<Rightarrow> 'a list \<Rightarrow> nat \<Rightarrow> 'a list" where
  "binaryInsertionSort comparefn high workArray start =
     (if start < high \<and> high \<le> length workArray
      then (let pivot = workArray ! start;
                left = binarySearch comparefn pivot workArray 0 start
            in binaryInsertionSort comparefn high
                 (take left workArray @ pivot # drop left (take start workArray) @
                  drop (Suc start) workArray)
                 (Suc start))
      else workArray)"
  by pat_completeness auto
termination
  by (relation "measure (\<lambda>(comparefn, high, workArray, start). high - start)") auto

declare binaryInsertionSort.simps [simp del]

definition v8Sort :: "('a \<Rightarrow> 'a \<Rightarrow> int option) \<Rightarrow> 'a list \<Rightarrow> 'a list" where
  "v8Sort comparefn xs =
     (if length xs < 2 then xs
      else (case countAndMakeRun comparefn xs of
              (workArray, runLength) \<Rightarrow>
                binaryInsertionSort comparefn (length xs) workArray runLength))"

subsection \<open>Example feeds\<close>

definition leaf :: "string \<Rightarrow> string \<Rightarrow> node" where
  "leaf tag txt = Element tag [] [Text txt]"

definition demoAirlinesXml :: string where
  "demoAirlinesXml =
     ''<airlineNames><airlineName code='dy' name='Norwegian'/>'' @
     ''<airlineName code='fx' name='FedEx'/>'' @
     ''<airlineName code='FX' name='Federal Express Cargo'/>'' @
     ''<airlineName code='ZZ'/><airlineName name='Nameless'/>'' @
     ''<airlineName code='' @ [CHR 0x27, CHR 0x27] @ '' name='Empty'/></airlineNames>''"

definition demoAirlinesDoc :: document where
  "demoAirlinesDoc =
     [Element ''airlineNames'' []
        [Element ''airlineName'' [(''code'', ''dy''), (''name'', ''Norwegian'')] [],
         Element ''airlineName'' [(''code'', ''fx''), (''name'', ''FedEx'')] [],
         Element ''airlineName'' [(''code'', ''FX''), (''name'', ''Federal Express Cargo'')] [],
         Element ''airlineName'' [(''code'', ''ZZ'')] [],
         Element ''airlineName'' [(''name'', ''Nameless'')] [],
         Element ''airlineName'' [(''code'', []), (''name'', ''Empty'')] []]]"

text \<open>The directory of the example: the own properties of the object parsed from it.\<close>

definition demoDirectory :: directory where
  "demoDirectory = [''DY'' \<mapsto> ''Norwegian'', ''FX'' \<mapsto> ''Federal Express Cargo'']"

definition demoFlightsXml :: string where
  "demoFlightsXml =
     ''<airport name='OSL'><flights>'' @
     ''<flight><airline>'' @ [CHR 0xC2, CHR 0xA0] @ ''qr </airline><flight_id>QR8156</flight_id>'' @
     ''<schedule_time>2024-06-14T10:15:00Z</schedule_time><arr_dep>A</arr_dep>'' @
     ''<airport>DOH</airport><status code='E' time='2024-06-14T09:00:00Z'/></flight>'' @
     ''<flight><airline>DY</airline><flight_id>DY1302</flight_id>'' @
     ''<schedule_time>2024-06-14T07:30:00Z</schedule_time><arr_dep>D</arr_dep>'' @
     ''<airport>LHR</airport></flight>'' @
     ''<flight><airline>fx</airline><flight_id>FX5024</flight_id>'' @
     ''<schedule_time>2024-06-14T08:45:00Z</schedule_time><arr_dep>A</arr_dep>'' @
     ''<airport>CDG</airport></flight>'' @
     ''<flight><airline>5X</airline><flight_id>5X226</flight_id>'' @
     ''<schedule_time>2024-06-14T08:45:00Z</schedule_time><arr_dep>D</arr_dep>'' @
     ''<airport>CGN</airport><status code='E'/></flight>'' @
     ''<flight/>'' @
     ''<flight><airline>D0</airline><flight_id>D0401</flight_id>'' @
     ''<schedule_time>2024-06-14T07:30:00Z</schedule_time><arr_dep>A</arr_dep>'' @
     ''<airport>LEJ</airport></flight>'' @
     ''</flights></airport>''"

definition demoFlightQR :: node where
  "demoFlightQR =
     Element ''flight'' []
       [leaf ''airline'' ([CHR 0xC2, CHR 0xA0] @ ''qr ''), leaf ''flight_id'' ''QR8156'',
        leaf ''schedule_time'' ''2024-06-14T10:15:00Z'', leaf ''arr_dep'' ''A'',
        leaf ''airport'' ''DOH'',
        Element ''status'' [(''code'', ''E''), (''time'', ''2024-06-14T09:00:00Z'')] []]"

definition demoFlightDY :: node where
  "demoFlightDY =
     Element ''flight'' []
       [leaf ''airline'' ''DY'', leaf ''flight_id'' ''DY1302'',
        leaf ''schedule_time'' ''2024-06-14T07:30:00Z'', leaf ''arr_dep'' ''D'',
        leaf ''airport'' ''LHR'']"

definition demoFlightFX :: node where
  "demoFlightFX =
     Element ''flight'' []
       [leaf ''airline'' ''fx'', leaf ''flight_id'' ''FX5024'',
        leaf ''schedule_time'' ''2024-06-14T08:45:00Z'', leaf ''arr_dep'' ''A'',
        leaf ''airport'' ''CDG'']"

definition demoFlight5X :: node where
  "demoFlight5X =
     Element ''flight'' []
       [leaf ''airline'' ''5X'', leaf ''flight_id'' ''5X226'',
        leaf ''schedule_time'' ''2024-06-14T08:45:00Z'', leaf ''arr_dep'' ''D'',
        leaf ''airport'' ''CGN'', Element ''status'' [(''code'', ''E'')] []]"

definition demoFlightD0 :: node where
  "demoFlightD0 =
     Element ''flight'' []
       [leaf ''airline'' ''D0'', leaf ''flight_id'' ''D0401'',
        leaf ''schedule_time'' ''2024-06-14T07:30:00Z'', leaf ''arr_dep'' ''A'',
        leaf ''airport'' ''LEJ'']"

definition demoFlightsDoc :: document where
  "demoFlightsDoc =
     [Element ''airport'' [(''name'', ''OSL'')]
        [Element ''flights'' []
           [demoFlightQR, demoFlightDY, demoFlightFX, demoFlight5X,
            Element ''flight'' [] [], demoFlightD0]]]"

text \<open>
  A second flight feed: three flights of the cargo carrier QR, the second of them without a
  \<open>schedule_time\<close> element.
\<close>

definition demoGapXml :: string where
  "demoGapXml =
     ''<airport name='OSL'><flights>'' @
     ''<flight><airline>QR</airline><flight_id>QR101</flight_id>'' @
     ''<schedule_time>2024-06-14T08:45:00Z</schedule_time></flight>'' @
     ''<flight><airline>QR</airline><flight_id>QR102</flight_id></flight>'' @
     ''<flight><airline>QR</airline><flight_id>QR103</flight_id>'' @
     ''<schedule_time>2024-06-14T07:30:00Z</schedule_time></flight>'' @
     ''<flight><airline>QR</airline><flight_id>QR105</flight_id>'' @
     ''<schedule_time>2024-06-14T10:15:00Z</schedule_time></flight>'' @
     ''</flights></airport>''"

definition demoGapDoc :: document where
  "demoGapDoc =
     [Element ''airport'' [(''name'', ''OSL'')]
        [Element ''flights'' []
           [Element ''flight'' []
              [leaf ''airline'' ''QR'', leaf ''flight_id'' ''QR101'',
               leaf ''schedule_time'' ''2024-06-14T08:45:00Z''],
            Element ''flight'' [] [leaf ''airline'' ''QR'', leaf ''flight_id'' ''QR102''],
            Element ''flight'' []
              [leaf ''airline'' ''QR'', leaf ''flight_id'' ''QR103'',
               leaf ''schedule_time'' ''2024-06-14T07:30:00Z''],
            Element ''flight'' []
              [leaf ''airline'' ''QR'', leaf ''flight_id'' ''QR105'',
               leaf ''schedule_time'' ''2024-06-14T10:15:00Z'']]]]"

definition demoGapLate :: flight where
  "demoGapLate = \<lparr> airline = ''QR'', flightId = ''QR101'',
     scheduleTime = ''2024-06-14T08:45:00Z'', arrDep = [], otherAirport = [],
     statusCode = None, statusTime = None \<rparr>"

definition demoGapNone :: flight where
  "demoGapNone = \<lparr> airline = ''QR'', flightId = ''QR102'', scheduleTime = [], arrDep = [],
     otherAirport = [], statusCode = None, statusTime = None \<rparr>"

definition demoGapEarly :: flight where
  "demoGapEarly = \<lparr> airline = ''QR'', flightId = ''QR103'',
     scheduleTime = ''2024-06-14T07:30:00Z'', arrDep = [], otherAirport = [],
     statusCode = None, statusTime = None \<rparr>"

definition demoGapLast :: flight where
  "demoGapLast = \<lparr> airline = ''QR'', flightId = ''QR105'',
     scheduleTime = ''2024-06-14T10:15:00Z'', arrDep = [], otherAirport = [],
     statusCode = None, statusTime = None \<rparr>"

text \<open>
  A third flight feed: two flights of a cargo carrier, the second with a scheduled time
  that is no date.
\<close>

definition demoSoonXml :: string where
  "demoSoonXml =
     ''<airport name='OSL'><flights>'' @
     ''<flight><airline>QR</airline><flight_id>QR101</flight_id>'' @
     ''<schedule_time>2024-06-14T08:45:00Z</schedule_time></flight>'' @
     ''<flight><airline>QR</airline><flight_id>QR104</flight_id>'' @
     ''<schedule_time>soon</schedule_time></flight>'' @
     ''</flights></airport>''"

definition demoSoonDoc :: document where
  "demoSoonDoc =
     [Element ''airport'' [(''name'', ''OSL'')]
        [Element ''flights'' []
           [Element ''flight'' []
              [leaf ''airline'' ''QR'', leaf ''flight_id'' ''QR101'',
               leaf ''schedule_time'' ''2024-06-14T08:45:00Z''],
            Element ''flight'' []
              [leaf ''airline'' ''QR'', leaf ''flight_id'' ''QR104'',
               leaf ''schedule_time'' ''soon'']]]]"

definition demoSoon :: flight where
  "demoSoon = \<lparr> airline = ''QR'', flightId = ''QR104'', scheduleTime = ''soon'',
     arrDep = [], otherAirport = [], statusCode = None, statusTime = None \<rparr>"

text \<open>
  A platform that agrees with a browser on the payloads and times of the examples: the
  feeds above parse to the documents above, and the payloads that are no XML at all
  (\<open>Service Unavailable\<close>, \<open>Bad Gateway\<close>, \<open>Internal Server Error\<close>) parse to a document of
  one \<open>parsererror\<close> element. Only its answers on these payloads are used; on every other
  payload it answers with the \<open>parsererror\<close> document as well. It sorts as V8 does.
\<close>

definition demoParse :: "string \<Rightarrow> document" where
  "demoParse s =
     (if s = demoAirlinesXml then demoAirlinesDoc
      else if s = demoFlightsXml then demoFlightsDoc
      else if s = demoGapXml then demoGapDoc
      else if s = demoSoonXml then demoSoonDoc
      else [Element ''parsererror'' [] [Text ''error on line 1 at column 1'']])"

definition demoDateValue :: "string \<Rightarrow> int option" where
  "demoDateValue = map_of
     [(''2024-06-14T07:30:00Z'', 1718350200000), (''2024-06-14T08:45:00Z'', 1718354700000),
      (''2024-06-14T09:00:00Z'', 1718355600000), (''2024-06-14T10:15:00Z'', 1718360100000)]"

definition demoParts :: "string \<Rightarrow> string \<Rightarrow> (string \<times> string) list" where
  "demoParts hour minute =
     [(''day'', ''14''), (''literal'', '' ''), (''month'', ''Jun''), (''literal'', '', ''),
      (''hour'', hour), (''literal'', '':''), (''minute'', minute)]"

definition demoFormatToParts :: "int \<Rightarrow> (string \<times> string) list" where
  "demoFormatToParts t =
     (if t = 1718350200000 then demoParts ''09'' ''30''
      else if t = 1718354700000 then demoParts ''10'' ''45''
      else if t = 1718355600000 then demoParts ''11'' ''00''
      else if t = 1718360100000 then demoParts ''12'' ''15''
      else [])"

definition demoPlatform :: platform where
  "demoPlatform =
     \<lparr> parseFromString = demoParse, dateValue = demoDateValue,
       formatToParts = demoFormatToParts, arraySort = v8Sort \<rparr>"

text \<open>The records of the six flights of the example feed.\<close>

definition demoQR :: flight where
  "demoQR = \<lparr> airline = ''QR'', flightId = ''QR8156'', scheduleTime = ''2024-06-14T10:15:00Z'',
     arrDep = ''A'', otherAirport = ''DOH'', statusCode = Some ''E'',
     statusTime = Some ''2024-06-14T09:00:00Z'' \<rparr>"

definition demoDY :: flight where
  "demoDY = \<lparr> airline = ''DY'', flightId = ''DY1302'', scheduleTime = ''2024-06-14T07:30:00Z'',
     arrDep = ''D'', otherAirport = ''LHR'', statusCode = None, statusTime = None \<rparr>"

definition demoFX :: flight where
  "demoFX = \<lparr> airline = ''FX'', flightId = ''FX5024'', scheduleTime = ''2024-06-14T08:45:00Z'',
     arrDep = ''A'', otherAirport = ''CDG'', statusCode = None, statusTime = None \<rparr>"

definition demo5X :: flight where
  "demo5X = \<lparr> airline = ''5X'', flightId = ''5X226'', scheduleTime = ''2024-06-14T08:45:00Z'',
     arrDep = ''D'', otherAirport = ''CGN'', statusCode = Some ''E'', statusTime = None \<rparr>"

definition demoBlank :: flight where
  "demoBlank = \<lparr> airline = [], flightId = [], scheduleTime = [], arrDep = [],
     otherAirport = [], statusCode = None, statusTime = None \<rparr>"

definition demoD0 :: flight where
  "demoD0 = \<lparr> airline = ''D0'', flightId = ''D0401'', scheduleTime = ''2024-06-14T07:30:00Z'',
     arrDep = ''A'', otherAirport = ''LEJ'', statusCode = None, statusTime = None \<rparr>"

text \<open>
  Networks: one whose flight request is answered with status 500 and a body that is no
  XML; one whose flight request fails in transport; one where both requests fail, the
  directory request first; two where reading a body fails; one that delivers the two
  example feeds; and one that delivers the feed with the time that is no date.
\<close>

definition demoNet500 :: network where
  "demoNet500 =
     \<lparr> flightFetch = Fulfilled (Response 500 (Fulfilled ''Internal Server Error'')),
       airlinesFetch = Fulfilled (Response 200 (Fulfilled demoAirlinesXml)),
       airlinesRejectsFirst = False \<rparr>"

definition demoNetOffline :: network where
  "demoNetOffline =
     \<lparr> flightFetch = Rejected (TypeError ''Failed to fetch''),
       airlinesFetch = Fulfilled (Response 200 (Fulfilled demoAirlinesXml)),
       airlinesRejectsFirst = False \<rparr>"

definition demoNetBothDown :: network where
  "demoNetBothDown =
     \<lparr> flightFetch = Rejected (TypeError ''Failed to fetch''),
       airlinesFetch = Rejected (TypeError ''Load failed''),
       airlinesRejectsFirst = True \<rparr>"

definition demoNetFlightsLost :: network where
  "demoNetFlightsLost =
     \<lparr> flightFetch = Fulfilled (Response 200 (Rejected (TypeError ''network error''))),
       airlinesFetch = Fulfilled (Response 200 (Fulfilled demoAirlinesXml)),
       airlinesRejectsFirst = False \<rparr>"

definition demoNetDirectoryLost :: network where
  "demoNetDirectoryLost =
     \<lparr> flightFetch = Fulfilled (Response 200 (Fulfilled demoFlightsXml)),
       airlinesFetch = Fulfilled (Response 200 (Rejected (TypeError ''body stream lost''))),
       airlinesRejectsFirst = False \<rparr>"

definition demoNetOk :: network where
  "demoNetOk =
     \<lparr> flightFetch = Fulfilled (Response 200 (Fulfilled demoFlightsXml)),
       airlinesFetch = Fulfilled (Response 200 (Fulfilled demoAirlinesXml)),
       airlinesRejectsFirst = False \<rparr>"

definition demoNetSoon :: network where
  "demoNetSoon =
     \<lparr> flightFetch = Fulfilled (Response 200 (Fulfilled demoSoonXml)),
       airlinesFetch = Fulfilled (Response 200 (Fulfilled demoAirlinesXml)),
       airlinesRejectsFirst = False \<rparr>"

definition emptyPage :: page where
  "emptyPage = \<lparr> tableBody = [], console = [] \<rparr>"

section \<open>Auxiliary facts\<close>

subsection \<open>Strings\<close>

lemma upperChar_not_lower: "upperChar c \<notin> set lowerLetters"
  by (simp add: upperChar_def lowerLetters_def upperLetters_def)

lemma toUpperCase_no_lower: "c \<in> set lowerLetters \<Longrightarrow> c \<notin> set (toUpperCase s)"
  using upperChar_not_lower by (auto simp: toUpperCase_def)

lemma prototypeKeys_lower:
  "list_all (\<lambda>k. list_ex (\<lambda>c. c \<in> set lowerLetters) k) objectPrototypeKeys"
  by code_simp

lemma prototypeKey_has_lower:
  "k \<in> set objectPrototypeKeys \<Longrightarrow> \<exists>c\<in>set k. c \<in> set lowerLetters"
  using prototypeKeys_lower by (simp only: list_all_iff list_ex_iff)

lemma toUpperCase_not_prototypeKey: "toUpperCase s \<notin> set objectPrototypeKeys"
  using prototypeKey_has_lower toUpperCase_no_lower by blast

lemma startsWith_iff: "startsWith s kw \<longleftrightarrow> (\<exists>q. s = kw @ q)"
  by (induction s kw rule: startsWith.induct) auto

lemma leadingToken_Some:
  "leadingToken ts s = Some w \<Longrightarrow> w \<in> set ts \<and> w \<noteq> [] \<and> s = w @ drop (length w) s"
  by (auto simp: leadingToken_def find_Some_iff startsWith_iff)

lemma leadingToken_None:
  "leadingToken ts s = None \<longleftrightarrow> (\<forall>w \<in> set ts. w = [] \<or> \<not> startsWith s w)"
  by (auto simp: leadingToken_def find_None_iff)

lemma dropTokens_decomp: "\<exists>p. s = p @ dropTokens ts s \<and> tokenSeq ts p"
proof (induction ts s rule: dropTokens.induct)
  case (1 ts s)
  show ?case
  proof (cases "leadingToken ts s")
    case None
    then have "dropTokens ts s = s" by (simp add: dropTokens.simps)
    then have "s = [] @ dropTokens ts s \<and> tokenSeq ts []" by (simp add: tokenSeq.empty)
    then show ?thesis by blast
  next
    case (Some w)
    then have w: "w \<in> set ts" and s: "s = w @ drop (length w) s"
      using leadingToken_Some by blast+
    from Some have d: "dropTokens ts s = dropTokens ts (drop (length w) s)"
      by (simp add: dropTokens.simps)
    from "1.IH" [OF Some] obtain p where p: "drop (length w) s = p @ dropTokens ts (drop (length w) s)"
      and seq: "tokenSeq ts p" by blast
    from s p d have "s = (w @ p) @ dropTokens ts s" by (metis append.assoc)
    moreover from w seq have "tokenSeq ts (w @ p)" by (rule tokenSeq.token)
    ultimately show ?thesis by blast
  qed
qed

lemma dropTokens_none: "leadingToken ts (dropTokens ts s) = None"
proof (induction ts s rule: dropTokens.induct)
  case (1 ts s)
  show ?case
  proof (cases "leadingToken ts s")
    case None
    then show ?thesis by (simp add: dropTokens.simps)
  next
    case (Some w)
    with "1.IH" [OF Some] show ?thesis by (simp add: dropTokens.simps)
  qed
qed

lemma tokenSeq_append: "tokenSeq ts a \<Longrightarrow> tokenSeq ts b \<Longrightarrow> tokenSeq ts (a @ b)"
  by (induction rule: tokenSeq.induct) (auto intro: tokenSeq.token)

lemma tokenSeq_rev: "tokenSeq (map rev ts) p \<Longrightarrow> tokenSeq ts (rev p)"
proof (induction rule: tokenSeq.induct)
  case empty
  then show ?case by (simp add: tokenSeq.empty)
next
  case (token w s)
  from token.hyps(1) obtain v where v: "v \<in> set ts" and w: "w = rev v" by auto
  from v have "tokenSeq ts (v @ [])" by (intro tokenSeq.token tokenSeq.empty)
  with token.IH have "tokenSeq ts (rev s @ v)" by (simp add: tokenSeq_append)
  then show ?case by (simp add: w)
qed

lemma trim_strippedOf: "strippedOf s (trim s)"
proof -
  let ?t = "trimStart s"
  obtain p where p: "s = p @ ?t" and wp: "whiteSpaceOnly p"
    using dropTokens_decomp [of s whiteSpaceCodes] by (auto simp: trimStart_def whiteSpaceOnly_def)
  obtain r where r: "rev ?t = r @ dropTokens (map rev whiteSpaceCodes) (rev ?t)"
    and wr: "tokenSeq (map rev whiteSpaceCodes) r"
    using dropTokens_decomp [of "rev ?t" "map rev whiteSpaceCodes"] by blast
  from r have "rev (rev ?t) = rev (r @ dropTokens (map rev whiteSpaceCodes) (rev ?t))" by simp
  then have t: "?t = trim s @ rev r" by (simp add: trim_def trimEnd_def)
  from wr have wq: "whiteSpaceOnly (rev r)" unfolding whiteSpaceOnly_def by (rule tokenSeq_rev)
  have front: "leadingToken whiteSpaceCodes ?t = None"
    unfolding trimStart_def by (rule dropTokens_none)
  have "leadingToken whiteSpaceCodes (trim s) = None"
    unfolding leadingToken_None
  proof
    fix w assume "w \<in> set whiteSpaceCodes"
    with front have "w = [] \<or> \<not> startsWith ?t w" by (simp add: leadingToken_None)
    then show "w = [] \<or> \<not> startsWith (trim s) w"
      by (subst (asm) t) (auto simp: startsWith_iff)
  qed
  moreover have "leadingToken (map rev whiteSpaceCodes) (rev (trim s)) = None"
    by (simp add: trim_def trimEnd_def dropTokens_none)
  ultimately have "stripped (trim s)" by (simp add: stripped_def)
  moreover from p t have "s = p @ trim s @ rev r" by simp
  ultimately show ?thesis unfolding strippedOf_def using wp wq by blast
qed


lemma upperChar_cases: "upperChar c \<in> set upperLetters \<or> upperChar c = c"
  by (simp add: upperChar_def lowerLetters_def upperLetters_def)

lemma upperChar_fix: "upperChar c \<notin> set upperLetters \<Longrightarrow> upperChar c = c"
  using upperChar_cases [of c] by blast

lemma startsWith_toUpperCase:
  "startsWith (map upperChar s) w \<Longrightarrow> \<forall>c \<in> set w. c \<notin> set upperLetters \<Longrightarrow> startsWith s w"
proof (induction s w rule: startsWith.induct)
  case (3 c cs k ks)
  from "3.prems"(1) have k: "upperChar c = k" and rest: "startsWith (map upperChar cs) ks"
    by simp_all
  from "3.prems"(2) have no: "k \<notin> set upperLetters"
    and others: "\<forall>c \<in> set ks. c \<notin> set upperLetters" by simp_all
  from k no have "upperChar c \<notin> set upperLetters" by simp
  then have "upperChar c = c" by (rule upperChar_fix)
  with k have "c = k" by simp
  moreover from rest others have "startsWith cs ks" by (rule "3.IH")
  ultimately show ?case by simp
qed simp_all

lemma whiteSpaceCodes_no_letters:
  "list_all (\<lambda>w. list_all (\<lambda>c. c \<notin> set upperLetters) w) whiteSpaceCodes"
  by code_simp

lemma whiteSpace_token_no_letters:
  "w \<in> set whiteSpaceCodes \<Longrightarrow> \<forall>c \<in> set w. c \<notin> set upperLetters"
  using whiteSpaceCodes_no_letters unfolding list_all_iff by blast

lemma stripped_toUpperCase: "stripped s \<Longrightarrow> stripped (toUpperCase s)"
proof -
  assume s: "stripped s"
  have "leadingToken whiteSpaceCodes (map upperChar s) = None"
    unfolding leadingToken_None
  proof
    fix w assume w: "w \<in> set whiteSpaceCodes"
    with s have "w = [] \<or> \<not> startsWith s w" by (simp add: stripped_def leadingToken_None)
    then show "w = [] \<or> \<not> startsWith (map upperChar s) w"
      using startsWith_toUpperCase [OF _ whiteSpace_token_no_letters [OF w]] by blast
  qed
  moreover have "leadingToken (map rev whiteSpaceCodes) (rev (map upperChar s)) = None"
    unfolding leadingToken_None
  proof
    fix w assume "w \<in> set (map rev whiteSpaceCodes)"
    then obtain v where v: "v \<in> set whiteSpaceCodes" and w: "w = rev v" by auto
    from v have no: "\<forall>c \<in> set w. c \<notin> set upperLetters"
      using whiteSpace_token_no_letters w by simp
    from s v w have "w = [] \<or> \<not> startsWith (rev s) w"
      by (simp add: stripped_def leadingToken_None)
    then show "w = [] \<or> \<not> startsWith (rev (map upperChar s)) w"
      using startsWith_toUpperCase [OF _ no, of "rev s"] by (auto simp: rev_map)
  qed
  ultimately show ?thesis by (simp add: stripped_def toUpperCase_def)
qed


lemma trim_plain:
  "leadingToken whiteSpaceCodes s = None \<Longrightarrow>
   leadingToken (map rev whiteSpaceCodes) (rev s) = None \<Longrightarrow> trim s = s"
  by (simp add: trim_def trimStart_def trimEnd_def dropTokens.simps)



subsection \<open>Parsers and example feeds\<close>

lemma flightLoop_eq: "flightLoop fs acc = acc @ map flightRecord fs"
  by (induction fs arbitrary: acc) auto

lemma parseFlights_eq:
  "parseFlights P s = Inr (map flightRecord (docElementsByTagName (parseFromString P s) ''flight''))"
  by (simp add: parseFlights_def flightLoop_eq)


lemma flightRecord_fields:
  "airline (flightRecord f) = toUpperCase (getText f ''airline'')"
  "flightId (flightRecord f) = getText f ''flight_id''"
  "scheduleTime (flightRecord f) = getText f ''schedule_time''"
  "arrDep (flightRecord f) = getText f ''arr_dep''"
  "otherAirport (flightRecord f) = getText f ''airport''"
  "statusCode (flightRecord f) =
     (case item0 (getElementsByTagName f ''status'') of
        None \<Rightarrow> None | Some el \<Rightarrow> getAttribute el ''code'')"
  "statusTime (flightRecord f) =
     (case item0 (getElementsByTagName f ''status'') of
        None \<Rightarrow> None | Some el \<Rightarrow> getAttribute el ''time'')"
  by (simp_all add: flightRecord_def Let_def)

lemma demo_trim:
  "trim [CHR 0xC2, CHR 0xA0, CHR ''q'', CHR ''r'', CHR '' ''] = ''qr''"
  "trim ''QR8156'' = ''QR8156''" "trim ''DOH'' = ''DOH''"
  "trim ''A'' = ''A''" "trim ''D'' = ''D''" "trim ''DY'' = ''DY''" "trim ''DY1302'' = ''DY1302''"
  "trim ''LHR'' = ''LHR''" "trim ''fx'' = ''fx''" "trim ''FX5024'' = ''FX5024''"
  "trim ''CDG'' = ''CDG''" "trim ''5X'' = ''5X''" "trim ''5X226'' = ''5X226''"
  "trim ''CGN'' = ''CGN''" "trim ''D0'' = ''D0''" "trim ''D0401'' = ''D0401''"
  "trim ''LEJ'' = ''LEJ''"
  "trim ''2024-06-14T10:15:00Z'' = ''2024-06-14T10:15:00Z''"
  "trim ''2024-06-14T07:30:00Z'' = ''2024-06-14T07:30:00Z''"
  "trim ''2024-06-14T08:45:00Z'' = ''2024-06-14T08:45:00Z''"
  by (simp_all add: trim_def trimStart_def trimEnd_def dropTokens.simps leadingToken_def
      whiteSpaceCodes_def)

lemma toUpperCase_examples:
  "toUpperCase ''dy'' = ''DY''" "toUpperCase ''fx'' = ''FX''" "toUpperCase ''FX'' = ''FX''"
  "toUpperCase ''DY'' = ''DY''" "toUpperCase ''qr'' = ''QR''" "toUpperCase ''5X'' = ''5X''"
  "toUpperCase ''D0'' = ''D0''" "toUpperCase [] = []"
  by (simp_all add: toUpperCase_def upperChar_def lowerLetters_def upperLetters_def)

lemma demo_parse_flights: "parseFromString demoPlatform demoFlightsXml = demoFlightsDoc"
  by (simp add: demoPlatform_def demoParse_def demoFlightsXml_def demoAirlinesXml_def)

lemma demo_parse_airlines: "parseFromString demoPlatform demoAirlinesXml = demoAirlinesDoc"
  by (simp add: demoPlatform_def demoParse_def)

lemma demo_flight_elements:
  "docElementsByTagName demoFlightsDoc ''flight'' =
     [demoFlightQR, demoFlightDY, demoFlightFX, demoFlight5X, Element ''flight'' [] [],
      demoFlightD0]"
  by (simp add: docElementsByTagName_def demoFlightsDoc_def demoFlightQR_def demoFlightDY_def
      demoFlightFX_def demoFlight5X_def demoFlightD0_def leaf_def)

section \<open>The claims\<close>

subsection \<open>C2: failures of the flight parser\<close>

text \<open>
  Against C2 as stated. An unparseable payload: the platform's XML parser answers
  \<open>Service Unavailable\<close> with a \<open>parsererror\<close> document. \<open>parseFlights\<close> does not fail on it:
  it returns the empty list.
\<close>

theorem parseFlights_ignores_parse_errors_counterexample:
  "isParserErrorDocument (parseFromString demoPlatform ''Service Unavailable'') \<and>
   parseFlights demoPlatform ''Service Unavailable'' = Inr []"
  by (simp add: isParserErrorDocument_def parseFlights_def docElementsByTagName_def
      demoPlatform_def demoParse_def demoAirlinesXml_def demoFlightsXml_def demoGapXml_def demoSoonXml_def)

text \<open>
  C2, amended. The flight parser never fails, neither for missing optional sub-fields nor
  for an unparseable payload: on every platform and for every payload it returns the
  records of the \<open>flight\<close> elements of the document that \<open>DOMParser\<close> produced, one for each
  element and in document order; for a document without \<open>flight\<close> elements, as the
  \<open>parsererror\<close> document of an unparseable payload is, that is the empty list. A \<open>flight\<close>
  element without any sub-field gives the record whose text fields are empty and whose
  status fields are \<open>null\<close>. No \<open>MalformedFeedError\<close> is signalled.
\<close>

theorem parseFlights_never_fails:
  "parseFlights P s =
     Inr (map flightRecord (docElementsByTagName (parseFromString P s) ''flight'')) \<and>
   (docElementsByTagName (parseFromString P s) ''flight'' = [] \<longrightarrow> parseFlights P s = Inr []) \<and>
   flightRecord (Element ''flight'' [] []) =
     \<lparr> airline = [], flightId = [], scheduleTime = [], arrDep = [], otherAirport = [],
       statusCode = None, statusTime = None \<rparr>"
  by (simp add: parseFlights_eq flightRecord_def getText_def toUpperCase_def)

text \<open>The platform of the examples answers \<open>Bad Gateway\<close> with a \<open>parsererror\<close> document.\<close>

theorem parseFlights_never_fails_witness:
  "docElementsByTagName (parseFromString demoPlatform ''Bad Gateway'') ''flight'' = [] \<and>
   parseFlights demoPlatform ''Bad Gateway'' = Inr []"
proof -
  have none: "docElementsByTagName (parseFromString demoPlatform ''Bad Gateway'') ''flight'' = []"
    by (simp add: docElementsByTagName_def demoPlatform_def demoParse_def demoAirlinesXml_def
        demoFlightsXml_def demoGapXml_def demoSoonXml_def)
  with parseFlights_never_fails [of demoPlatform "''Bad Gateway''"] show ?thesis by blast
qed


subsection \<open>C3: the status NewTime without a time\<close>

text \<open>
  Against C3 as stated: for the code \<open>E\<close> and an absent time the description is not
  \<open>New time\<close> followed by a space.
\<close>

theorem newTime_without_time_counterexample:
  "getStatusDescription demoPlatform (Some ''E'') None \<noteq> Inr (Str ''New time '')"
  by (simp add: getStatusDescription_def statusMap_def getProperty_def orElse_def)

text \<open>
  C3, amended. When the status code is \<open>E\<close> (NewTime) and the status time is absent
  (\<open>null\<close>, or the empty string), the status description is the literal \<open>New time\<close>,
  without a trailing space and without a time stamp.
\<close>

theorem newTime_without_time:
  "getStatusDescription P (Some ''E'') None = Inr (Str ''New time'') \<and>
   getStatusDescription P (Some ''E'') (Some []) = Inr (Str ''New time'')"
  by (simp add: getStatusDescription_def statusMap_def getProperty_def orElse_def)

subsection \<open>C4: the static cargo codes\<close>

text \<open>
  C4. For every flight whose airline code is in \<open>CARGO_CODES\<close>, \<open>isCargoFlight\<close> returns
  \<open>true\<close> whatever the directory holds, the empty directory included.
\<close>

theorem isCargoFlight_static_code:
  "airline f \<in> set CARGO_CODES \<Longrightarrow> isCargoFlight f airlinesMap = Inr True"
  by (simp add: isCargoFlight_def)

text \<open>The flight \<open>qr\<close> of the example feed, parsed, against the empty directory.\<close>

theorem isCargoFlight_static_code_witness:
  "airline (flightRecord demoFlightQR) \<in> set CARGO_CODES \<and>
   isCargoFlight (flightRecord demoFlightQR) Map.empty = Inr True"
proof -
  have h: "airline (flightRecord demoFlightQR) \<in> set CARGO_CODES"
    by (simp add: flightRecord_fields demoFlightQR_def leaf_def getText_def demo_trim
        toUpperCase_examples CARGO_CODES_def)
  from h isCargoFlight_static_code [OF h, of Map.empty] show ?thesis by simp
qed

subsection \<open>C8: a flight without a status element\<close>

text \<open>
  C8. Parsing returns normally, with one record for each \<open>flight\<close> element; for every
  element that has no \<open>status\<close> sub-element the record has \<open>statusCode\<close> and \<open>statusTime\<close>
  absent, and the status description computed from them is the empty string, returned
  without an error.
\<close>

theorem missing_status_tolerated:
  "\<exists>fs. parseFlights P s = Inr fs \<and>
     length fs = length (docElementsByTagName (parseFromString P s) ''flight'') \<and>
     (\<forall>i < length fs.
        getElementsByTagName (docElementsByTagName (parseFromString P s) ''flight'' ! i)
          ''status'' = [] \<longrightarrow>
        statusCode (fs ! i) = None \<and> statusTime (fs ! i) = None \<and>
        getStatusDescription P (statusCode (fs ! i)) (statusTime (fs ! i)) = Inr (Str []))"
  by (simp add: parseFlights_eq flightRecord_fields getStatusDescription_def)

text \<open>The second flight of the example feed (\<open>DY\<close>) has no \<open>status\<close> element.\<close>

theorem missing_status_tolerated_witness:
  "getElementsByTagName (docElementsByTagName (parseFromString demoPlatform demoFlightsXml)
      ''flight'' ! 1) ''status'' = [] \<and>
   (\<exists>fs. parseFlights demoPlatform demoFlightsXml = Inr fs \<and> 1 < length fs \<and>
      statusCode (fs ! 1) = None \<and> statusTime (fs ! 1) = None \<and>
      getStatusDescription demoPlatform (statusCode (fs ! 1)) (statusTime (fs ! 1))
        = Inr (Str []))"
proof -
  have h: "getElementsByTagName (docElementsByTagName
             (parseFromString demoPlatform demoFlightsXml) ''flight'' ! 1) ''status'' = []"
    by (simp add: demo_parse_flights demo_flight_elements demoFlightDY_def leaf_def)
  from missing_status_tolerated [of demoPlatform demoFlightsXml]
  obtain fs where fs: "parseFlights demoPlatform demoFlightsXml = Inr fs"
    and len: "length fs = length (docElementsByTagName
                (parseFromString demoPlatform demoFlightsXml) ''flight'')"
    and imp: "\<forall>i < length fs.
        getElementsByTagName (docElementsByTagName
          (parseFromString demoPlatform demoFlightsXml) ''flight'' ! i) ''status'' = [] \<longrightarrow>
        statusCode (fs ! i) = None \<and> statusTime (fs ! i) = None \<and>
        getStatusDescription demoPlatform (statusCode (fs ! i)) (statusTime (fs ! i))
          = Inr (Str [])"
    by blast
  from len have l: "1 < length fs" by (simp add: demo_parse_flights demo_flight_elements)
  with imp h have "statusCode (fs ! 1) = None \<and> statusTime (fs ! 1) = None \<and>
        getStatusDescription demoPlatform (statusCode (fs ! 1)) (statusTime (fs ! 1))
          = Inr (Str [])" by blast
  with h fs l show ?thesis by blast
qed

subsection \<open>C10: white space around the text sub-fields\<close>

lemma leadingToken_Nil: "leadingToken ts [] = None"
proof -
  have "w = [] \<or> \<not> startsWith [] w" for w :: string by (cases w) simp_all
  then show ?thesis by (simp add: leadingToken_None)
qed

lemma strippedOf_Nil: "strippedOf [] []"
proof -
  have "trim [] = []" by (rule trim_plain) (simp_all add: leadingToken_Nil)
  with trim_strippedOf [of "[]"] show ?thesis by simp
qed

lemma getText_strippedOf: "strippedOf (rawText f tag) (getText f tag)"
  by (cases "item0 (getElementsByTagName f tag)")
     (simp_all add: rawText_def getText_def strippedOf_Nil trim_strippedOf)

lemma stripped_getText: "stripped (getText f tag)"
  using getText_strippedOf [of f tag] by (auto simp: strippedOf_def)

text \<open>
  C10. Parsing returns normally, with one record for each \<open>flight\<close> element, and in the
  record of every element each of the five text fields taken from sub-elements is the text
  of its sub-element with the white space at its two ends removed: \<open>flightId\<close>,
  \<open>scheduleTime\<close>, \<open>arrDep\<close> and \<open>otherAirport\<close> as they stand, \<open>airline\<close> upper-cased after
  that. The text between the removed ends is kept as it is, and no field begins or ends
  with a white space character.
\<close>

theorem parseFlights_strips_text:
  "\<exists>fs. parseFlights P s = Inr fs \<and>
     length fs = length (docElementsByTagName (parseFromString P s) ''flight'') \<and>
     (\<forall>i < length fs.
        (\<exists>core. strippedOf
           (rawText (docElementsByTagName (parseFromString P s) ''flight'' ! i) ''airline'') core \<and>
           airline (fs ! i) = toUpperCase core) \<and>
        strippedOf (rawText (docElementsByTagName (parseFromString P s) ''flight'' ! i)
          ''flight_id'') (flightId (fs ! i)) \<and>
        strippedOf (rawText (docElementsByTagName (parseFromString P s) ''flight'' ! i)
          ''schedule_time'') (scheduleTime (fs ! i)) \<and>
        strippedOf (rawText (docElementsByTagName (parseFromString P s) ''flight'' ! i)
          ''arr_dep'') (arrDep (fs ! i)) \<and>
        strippedOf (rawText (docElementsByTagName (parseFromString P s) ''flight'' ! i)
          ''airport'') (otherAirport (fs ! i))) \<and>
     (\<forall>r \<in> set fs. stripped (airline r) \<and> stripped (flightId r) \<and>
        stripped (scheduleTime r) \<and> stripped (arrDep r) \<and> stripped (otherAirport r))"
proof -
  let ?els = "docElementsByTagName (parseFromString P s) ''flight''"
  let ?fs = "map flightRecord ?els"
  have parsed: "parseFlights P s = Inr ?fs" by (rule parseFlights_eq)
  have fields: "(\<exists>core. strippedOf (rawText (?els ! i) ''airline'') core \<and>
                   airline (?fs ! i) = toUpperCase core) \<and>
        strippedOf (rawText (?els ! i) ''flight_id'') (flightId (?fs ! i)) \<and>
        strippedOf (rawText (?els ! i) ''schedule_time'') (scheduleTime (?fs ! i)) \<and>
        strippedOf (rawText (?els ! i) ''arr_dep'') (arrDep (?fs ! i)) \<and>
        strippedOf (rawText (?els ! i) ''airport'') (otherAirport (?fs ! i))"
    if "i < length ?fs" for i
  proof -
    from that have rec: "?fs ! i = flightRecord (?els ! i)" by simp
    have "strippedOf (rawText (?els ! i) ''airline'') (getText (?els ! i) ''airline'') \<and>
          airline (?fs ! i) = toUpperCase (getText (?els ! i) ''airline'')"
      unfolding rec by (simp add: getText_strippedOf flightRecord_fields)
    then have "\<exists>core. strippedOf (rawText (?els ! i) ''airline'') core \<and>
                 airline (?fs ! i) = toUpperCase core" ..
    then show ?thesis unfolding rec by (simp add: getText_strippedOf flightRecord_fields)
  qed
  have ends: "stripped (airline r) \<and> stripped (flightId r) \<and>
        stripped (scheduleTime r) \<and> stripped (arrDep r) \<and> stripped (otherAirport r)"
    if "r \<in> set ?fs" for r
    using that by (auto simp: flightRecord_fields stripped_getText stripped_toUpperCase)
  from parsed fields ends show ?thesis by (intro exI [of _ ?fs]) simp
qed

text \<open>
  The first flight of the example feed has the airline text \<open>qr\<close> between a no-break space
  (U+00A0) and a space; its record has the airline \<open>QR\<close>.
\<close>

theorem parseFlights_strips_text_witness:
  "\<exists>fs. parseFlights demoPlatform demoFlightsXml = Inr fs \<and> 0 < length fs \<and>
     rawText (docElementsByTagName (parseFromString demoPlatform demoFlightsXml) ''flight'' ! 0)
       ''airline'' = [CHR 0xC2, CHR 0xA0] @ ''qr '' \<and>
     airline (fs ! 0) = ''QR'' \<and> stripped (airline (fs ! 0)) \<and>
     rawText (docElementsByTagName (parseFromString demoPlatform demoFlightsXml) ''flight'' ! 0)
       ''flight_id'' = ''QR8156'' \<and>
     strippedOf ''QR8156'' (flightId (fs ! 0)) \<and>
     flightId (fs ! 0) = ''QR8156''"
proof -
  let ?els = "docElementsByTagName (parseFromString demoPlatform demoFlightsXml) ''flight''"
  from parseFlights_strips_text [of demoPlatform demoFlightsXml]
  obtain fs where fs: "parseFlights demoPlatform demoFlightsXml = Inr fs"
    and len: "length fs = length ?els"
    and each: "\<And>i. i < length fs \<Longrightarrow>
        strippedOf (rawText (?els ! i) ''flight_id'') (flightId (fs ! i))"
    and ends: "\<And>r. r \<in> set fs \<Longrightarrow> stripped (airline r)"
    by blast
  have els: "?els ! 0 = demoFlightQR"
    by (simp add: demo_parse_flights demo_flight_elements)
  from len have pos: "0 < length fs" by (simp add: demo_parse_flights demo_flight_elements)
  have raw: "rawText (?els ! 0) ''airline'' = [CHR 0xC2, CHR 0xA0] @ ''qr ''"
    and rawId: "rawText (?els ! 0) ''flight_id'' = ''QR8156''"
    unfolding els by (simp_all add: rawText_def demoFlightQR_def leaf_def)
  from fs have "fs = map flightRecord ?els" by (simp add: parseFlights_eq)
  with pos len have "fs ! 0 = flightRecord demoFlightQR" by (simp add: els)
  then have qr: "airline (fs ! 0) = ''QR''" and id: "flightId (fs ! 0) = ''QR8156''"
    by (simp_all add: flightRecord_fields demoFlightQR_def leaf_def getText_def demo_trim
        toUpperCase_examples)
  from pos have "fs ! 0 \<in> set fs" by simp
  then have st: "stripped (airline (fs ! 0))" by (rule ends)
  from each [OF pos] rawId have "strippedOf ''QR8156'' (flightId (fs ! 0))" by simp
  with fs pos raw qr st rawId id show ?thesis by blast
qed

subsection \<open>C9: the airline directory parser\<close>

lemma addAirline_spec:
  "addAirline el m = (case specEntry el of None \<Rightarrow> m | Some (k, n) \<Rightarrow> m(k \<mapsto> n))"
  by (cases "getAttribute el ''code''"; cases "getAttribute el ''name''")
     (auto simp: addAirline_def specEntry_def Let_def)

lemma airlineLoop_append: "airlineLoop (xs @ ys) m = airlineLoop ys (airlineLoop xs m)"
  by (induction xs arbitrary: m) auto

lemma airlineLoop_other: "Some k \<notin> specKey ` set els \<Longrightarrow> airlineLoop els m k = m k"
proof (induction els arbitrary: m)
  case Nil
  then show ?case by simp
next
  case (Cons el els)
  from Cons.prems have here: "specKey el \<noteq> Some k" and rest: "Some k \<notin> specKey ` set els"
    by auto
  from here have "addAirline el m k = m k"
    by (auto simp: addAirline_spec specKey_def split: option.splits)
  with Cons.IH [OF rest] show ?case by simp
qed

lemma airlineLoop_last:
  assumes "specEntry el = Some (k, n)" and "Some k \<notin> specKey ` set post"
  shows "airlineLoop (pre @ el # post) m k = Some n"
proof -
  have "airlineLoop (pre @ el # post) m = airlineLoop post (addAirline el (airlineLoop pre m))"
    by (simp add: airlineLoop_append)
  moreover have "addAirline el (airlineLoop pre m) k = Some n"
    using assms(1) by (simp add: addAirline_spec)
  ultimately show ?thesis using airlineLoop_other [OF assms(2)] by simp
qed

lemma airlineLoop_covers:
  assumes "el \<in> set els" and "specEntry el = Some (k, n)"
  shows "\<exists>n'. airlineLoop els m k = Some n'"
proof -
  from assms have "\<exists>e \<in> set els. specKey e = Some k"
    by (auto simp: specKey_def)
  then obtain pre e post where els: "els = pre @ e # post" and e: "specKey e = Some k"
    and post: "\<forall>z \<in> set post. specKey z \<noteq> Some k"
    by (rule split_list_last_propE)
  from e obtain n' where "specEntry e = Some (k, n')"
    by (auto simp: specKey_def)
  moreover from post have "Some k \<notin> specKey ` set post" by auto
  ultimately have "airlineLoop (pre @ e # post) m k = Some n'" by (rule airlineLoop_last)
  then show ?thesis unfolding els ..
qed

lemma specEntry_attributes:
  "getAttribute el ''code'' = Some c \<Longrightarrow> c \<noteq> [] \<Longrightarrow> getAttribute el ''name'' = Some n \<Longrightarrow>
   n \<noteq> [] \<Longrightarrow> specEntry el = Some (toUpperCase c, n)"
  by (simp add: specEntry_def)

lemma getProperty_own: "m k = Some v \<Longrightarrow> getProperty m k = Str v"
  by (simp add: getProperty_def)

lemma demo_airline_elements:
  "docElementsByTagName demoAirlinesDoc ''airlineName'' =
     [Element ''airlineName'' [(''code'', ''dy''), (''name'', ''Norwegian'')] [],
      Element ''airlineName'' [(''code'', ''fx''), (''name'', ''FedEx'')] [],
      Element ''airlineName'' [(''code'', ''FX''), (''name'', ''Federal Express Cargo'')] [],
      Element ''airlineName'' [(''code'', ''ZZ'')] [],
      Element ''airlineName'' [(''name'', ''Nameless'')] [],
      Element ''airlineName'' [(''code'', []), (''name'', ''Empty'')] []]"
  by (simp add: docElementsByTagName_def demoAirlinesDoc_def)

lemma demo_directory: "parseAirlineNames demoPlatform demoAirlinesXml = Inr demoDirectory"
  by (simp add: parseAirlineNames_def demo_parse_airlines demo_airline_elements addAirline_def
      toUpperCase_examples demoDirectory_def)

lemma demo_specKeys:
  "specKey (Element ''airlineName'' [(''code'', ''dy''), (''name'', ''Norwegian'')] []) = Some ''DY''"
  "specKey (Element ''airlineName'' [(''code'', ''fx''), (''name'', ''FedEx'')] []) = Some ''FX''"
  "specKey (Element ''airlineName'' [(''code'', ''FX''), (''name'', ''Federal Express Cargo'')] [])
     = Some ''FX''"
  "specKey (Element ''airlineName'' [(''code'', ''ZZ'')] []) = None"
  "specKey (Element ''airlineName'' [(''name'', ''Nameless'')] []) = None"
  "specKey (Element ''airlineName'' [(''code'', []), (''name'', ''Empty'')] []) = None"
  by (simp_all add: specKey_def specEntry_def toUpperCase_examples)

lemma demo_getText_fx: "getText demoFlightFX ''airline'' = ''fx''"
  by (simp add: demoFlightFX_def leaf_def getText_def demo_trim)



text \<open>
  C9. \<open>parseAirlineNames\<close> returns normally, with a directory \<open>m\<close> such that
  \<^item> every \<open>airlineName\<close> record with a non-empty code \<open>c\<close> and a non-empty name has an
    entry under \<open>uppercase(c)\<close>;
  \<^item> every \<open>airlineName\<close> record with a non-empty code \<open>c\<close> and a non-empty name \<open>n\<close> that no
    later record overrides (no later record contributes the same upper-cased code) gives
    \<open>m[uppercase(c)] = n\<close>: entries are inserted under the upper-cased code, and among
    duplicates the last one wins;
  \<^item> a key that no record contributes is absent from \<open>m\<close>: records that lack a code or a
    name, or have an empty one, are skipped and add nothing.
\<close>

theorem parseAirlineNames_last_wins:
  "\<exists>m. parseAirlineNames P s = Inr m \<and>
     (\<forall>el c n.
        el \<in> set (docElementsByTagName (parseFromString P s) ''airlineName'') \<and>
        getAttribute el ''code'' = Some c \<and> c \<noteq> [] \<and>
        getAttribute el ''name'' = Some n \<and> n \<noteq> []
        \<longrightarrow> (\<exists>n'. m (toUpperCase c) = Some n')) \<and>
     (\<forall>pre el post c n.
        docElementsByTagName (parseFromString P s) ''airlineName'' = pre @ el # post \<and>
        getAttribute el ''code'' = Some c \<and> c \<noteq> [] \<and>
        getAttribute el ''name'' = Some n \<and> n \<noteq> [] \<and>
        Some (toUpperCase c) \<notin> specKey ` set post
        \<longrightarrow> m (toUpperCase c) = Some n) \<and>
     (\<forall>k. Some k \<notin> specKey ` set (docElementsByTagName (parseFromString P s) ''airlineName'')
        \<longrightarrow> m k = None)"
proof -
  let ?els = "docElementsByTagName (parseFromString P s) ''airlineName''"
  let ?m = "airlineLoop ?els Map.empty"
  have "parseAirlineNames P s = Inr ?m" by (simp add: parseAirlineNames_def)
  moreover have "\<exists>n'. ?m (toUpperCase c) = Some n'"
    if "el \<in> set ?els" "getAttribute el ''code'' = Some c" "c \<noteq> []"
       "getAttribute el ''name'' = Some n" "n \<noteq> []" for el c n
    using that(1) specEntry_attributes [OF that(2-5)] by (rule airlineLoop_covers)
  moreover have "?m (toUpperCase c) = Some n"
    if "?els = pre @ el # post" "getAttribute el ''code'' = Some c" "c \<noteq> []"
       "getAttribute el ''name'' = Some n" "n \<noteq> []"
       "Some (toUpperCase c) \<notin> specKey ` set post" for pre el post c n
    using that airlineLoop_last [OF specEntry_attributes] by simp
  moreover have "?m k = None" if "Some k \<notin> specKey ` set ?els" for k
    using airlineLoop_other [OF that] by simp
  ultimately show ?thesis by blast
qed

text \<open>
  On the example directory feed: the second \<open>FX\<close> record overrides the first, the record
  without a name and the one without a code leave no entry.
\<close>

theorem parseAirlineNames_last_wins_witness:
  "\<exists>m. parseAirlineNames demoPlatform demoAirlinesXml = Inr m \<and> m ''DY'' \<noteq> None \<and>
     m ''FX'' = Some ''Federal Express Cargo'' \<and> m ''ZZ'' = None \<and> m ''NAMELESS'' = None"
proof -
  let ?fx = "Element ''airlineName'' [(''code'', ''FX''), (''name'', ''Federal Express Cargo'')] []"
  let ?pre = "[Element ''airlineName'' [(''code'', ''dy''), (''name'', ''Norwegian'')] [],
               Element ''airlineName'' [(''code'', ''fx''), (''name'', ''FedEx'')] []]"
  let ?post = "[Element ''airlineName'' [(''code'', ''ZZ'')] [],
                Element ''airlineName'' [(''name'', ''Nameless'')] [],
                Element ''airlineName'' [(''code'', []), (''name'', ''Empty'')] []]"
  let ?els = "docElementsByTagName (parseFromString demoPlatform demoAirlinesXml) ''airlineName''"
  from parseAirlineNames_last_wins [of demoPlatform demoAirlinesXml]
  obtain m where m: "parseAirlineNames demoPlatform demoAirlinesXml = Inr m"
    and cov: "\<And>el c n. el \<in> set ?els \<Longrightarrow>
        getAttribute el ''code'' = Some c \<Longrightarrow> c \<noteq> [] \<Longrightarrow>
        getAttribute el ''name'' = Some n \<Longrightarrow> n \<noteq> [] \<Longrightarrow> \<exists>n'. m (toUpperCase c) = Some n'"
    and ins: "\<And>pre el post c n. ?els = pre @ el # post \<Longrightarrow>
        getAttribute el ''code'' = Some c \<Longrightarrow> c \<noteq> [] \<Longrightarrow>
        getAttribute el ''name'' = Some n \<Longrightarrow> n \<noteq> [] \<Longrightarrow>
        Some (toUpperCase c) \<notin> specKey ` set post \<Longrightarrow> m (toUpperCase c) = Some n"
    and skip: "\<And>k. Some k \<notin> specKey ` set ?els \<Longrightarrow> m k = None"
    by blast
  have els: "?els = ?pre @ ?fx # ?post"
    by (simp add: demo_parse_airlines demo_airline_elements)
  have "Some (toUpperCase ''FX'') \<notin> specKey ` set ?post"
    by (simp add: demo_specKeys toUpperCase_examples)
  from ins [OF els _ _ _ _ this, of "''Federal Express Cargo''"]
  have fx: "m ''FX'' = Some ''Federal Express Cargo''"
    by (simp add: toUpperCase_examples)
  have "Some ''ZZ'' \<notin> specKey ` set ?els"
    by (simp add: els demo_specKeys)
  then have zz: "m ''ZZ'' = None" by (rule skip)
  have "Some ''NAMELESS'' \<notin> specKey ` set ?els"
    by (simp add: els demo_specKeys)
  then have nn: "m ''NAMELESS'' = None" by (rule skip)
  have "Element ''airlineName'' [(''code'', ''dy''), (''name'', ''Norwegian'')] [] \<in> set ?els"
    by (simp add: els)
  from cov [OF this, of "''dy''" "''Norwegian''"] have dy: "m ''DY'' \<noteq> None"
    by (simp add: toUpperCase_examples)
  from m dy fx zz nn show ?thesis by blast
qed

subsection \<open>C6: letter case of directory lookups\<close>

lemma demo_getText_dy: "getText demoFlightDY ''airline'' = ''DY''"
  by (simp add: demoFlightDY_def leaf_def getText_def demo_trim)

text \<open>
  C6. Directory lookups do not depend on the letter case in which the two feeds spell an
  airline code. The key of a lookup is the airline code of a parsed flight: \<open>parseFlights\<close>
  upper-cases the text of the \<open>airline\<close> element before \<open>isCargoFlight\<close> and \<open>renderFlights\<close>
  look it up, and the directory parser upper-cases the code of a record. So the entry
  parsed from a record with code \<open>c\<close>, in lower, upper or mixed case (the entry of the
  directory being that of the last record with this code), is retrieved by the upper-case
  query \<open>uppercase(c)\<close>, and by the airline code of every flight whose airline text is \<open>c\<close>
  up to letter case, a lower-case one included; both lookups of the script, the one of
  \<open>isCargoFlight\<close> with its default \<open>""\<close> and the plain one, then give the name of the record.
\<close>

theorem directory_lookup_normalised:
  assumes "docElementsByTagName (parseFromString P s) ''airlineName'' = pre @ el # post"
    and "getAttribute el ''code'' = Some c" and "c \<noteq> []"
    and "getAttribute el ''name'' = Some n" and "n \<noteq> []"
    and "Some (toUpperCase c) \<notin> specKey ` set post"
  shows "\<exists>m. parseAirlineNames P s = Inr m \<and>
           getProperty m (toUpperCase c) = Str n \<and>
           (\<forall>f. toUpperCase (getText f ''airline'') = toUpperCase c \<longrightarrow>
                getProperty m (airline (flightRecord f)) = Str n \<and>
                displayName m (airline (flightRecord f)) = Str n)"
proof -
  let ?m = "airlineLoop (docElementsByTagName (parseFromString P s) ''airlineName'') Map.empty"
  have "specEntry el = Some (toUpperCase c, n)"
    using assms(2-5) by (rule specEntry_attributes)
  then have "?m (toUpperCase c) = Some n"
    unfolding assms(1) using assms(6) by (rule airlineLoop_last)
  then have own: "getProperty ?m (toUpperCase c) = Str n"
    by (rule getProperty_own)
  have "parseAirlineNames P s = Inr ?m" by (simp add: parseAirlineNames_def)
  moreover have "getProperty ?m (airline (flightRecord f)) = Str n \<and>
      displayName ?m (airline (flightRecord f)) = Str n"
    if "toUpperCase (getText f ''airline'') = toUpperCase c" for f
    using own that assms(5) by (simp add: flightRecord_fields displayName_def orElse_def)
  ultimately show ?thesis using own by blast
qed

text \<open>
  In the example feeds the record with the upper-case code \<open>FX\<close> is retrieved by the flight
  with the lower-case airline text \<open>fx\<close>, and the record with the lower-case code \<open>dy\<close> by
  the flight with the upper-case airline text \<open>DY\<close>.
\<close>

theorem directory_lookup_normalised_witness:
  "getText demoFlightFX ''airline'' = ''fx'' \<and> getText demoFlightDY ''airline'' = ''DY'' \<and>
   (\<exists>m. parseAirlineNames demoPlatform demoAirlinesXml = Inr m \<and>
      getProperty m ''FX'' = Str ''Federal Express Cargo'' \<and>
      getProperty m (airline (flightRecord demoFlightFX)) = Str ''Federal Express Cargo'' \<and>
      displayName m (airline (flightRecord demoFlightFX)) = Str ''Federal Express Cargo'' \<and>
      getProperty m ''DY'' = Str ''Norwegian'' \<and>
      getProperty m (airline (flightRecord demoFlightDY)) = Str ''Norwegian'' \<and>
      displayName m (airline (flightRecord demoFlightDY)) = Str ''Norwegian'')"
proof -
  let ?dy = "Element ''airlineName'' [(''code'', ''dy''), (''name'', ''Norwegian'')] []"
  let ?fedex = "Element ''airlineName'' [(''code'', ''fx''), (''name'', ''FedEx'')] []"
  let ?fx = "Element ''airlineName'' [(''code'', ''FX''), (''name'', ''Federal Express Cargo'')] []"
  let ?post = "[Element ''airlineName'' [(''code'', ''ZZ'')] [],
                Element ''airlineName'' [(''name'', ''Nameless'')] [],
                Element ''airlineName'' [(''code'', []), (''name'', ''Empty'')] []]"
  have els: "docElementsByTagName (parseFromString demoPlatform demoAirlinesXml) ''airlineName''
               = [?dy, ?fedex] @ ?fx # ?post"
    by (simp add: demo_parse_airlines demo_airline_elements)
  have code: "getAttribute ?fx ''code'' = Some ''FX''" and c: "''FX'' \<noteq> []"
    and name: "getAttribute ?fx ''name'' = Some ''Federal Express Cargo''"
    and n: "''Federal Express Cargo'' \<noteq> []"
    by simp_all
  have later: "Some (toUpperCase ''FX'') \<notin> specKey ` set ?post"
    by (simp add: demo_specKeys toUpperCase_examples)
  from directory_lookup_normalised [OF els code c name n later]
  obtain m where m: "parseAirlineNames demoPlatform demoAirlinesXml = Inr m"
    and up: "getProperty m (toUpperCase ''FX'') = Str ''Federal Express Cargo''"
    and fl: "\<And>f. toUpperCase (getText f ''airline'') = toUpperCase ''FX'' \<Longrightarrow>
               getProperty m (airline (flightRecord f)) = Str ''Federal Express Cargo'' \<and>
               displayName m (airline (flightRecord f)) = Str ''Federal Express Cargo''"
    by blast
  have els': "docElementsByTagName (parseFromString demoPlatform demoAirlinesXml) ''airlineName''
               = [] @ ?dy # ?fedex # ?fx # ?post"
    by (simp add: demo_parse_airlines demo_airline_elements)
  have code': "getAttribute ?dy ''code'' = Some ''dy''" and c': "''dy'' \<noteq> []"
    and name': "getAttribute ?dy ''name'' = Some ''Norwegian''" and n': "''Norwegian'' \<noteq> []"
    by simp_all
  have later': "Some (toUpperCase ''dy'') \<notin> specKey ` set (?fedex # ?fx # ?post)"
    by (simp add: demo_specKeys toUpperCase_examples)
  from directory_lookup_normalised [OF els' code' c' name' n' later']
  obtain m' where m': "parseAirlineNames demoPlatform demoAirlinesXml = Inr m'"
    and up': "getProperty m' (toUpperCase ''dy'') = Str ''Norwegian''"
    and fl': "\<And>f. toUpperCase (getText f ''airline'') = toUpperCase ''dy'' \<Longrightarrow>
               getProperty m' (airline (flightRecord f)) = Str ''Norwegian'' \<and>
               displayName m' (airline (flightRecord f)) = Str ''Norwegian''"
    by blast
  from m m' have same: "m' = m" by simp
  have "toUpperCase (getText demoFlightFX ''airline'') = toUpperCase ''FX''"
    by (simp add: demo_getText_fx toUpperCase_examples)
  then have fx: "getProperty m (airline (flightRecord demoFlightFX)) = Str ''Federal Express Cargo'' \<and>
      displayName m (airline (flightRecord demoFlightFX)) = Str ''Federal Express Cargo''"
    by (rule fl)
  have "toUpperCase (getText demoFlightDY ''airline'') = toUpperCase ''dy''"
    by (simp add: demo_getText_dy toUpperCase_examples)
  then have dy: "getProperty m (airline (flightRecord demoFlightDY)) = Str ''Norwegian'' \<and>
      displayName m (airline (flightRecord demoFlightDY)) = Str ''Norwegian''"
    unfolding same [symmetric] by (rule fl')
  from up have up1: "getProperty m ''FX'' = Str ''Federal Express Cargo''"
    by (simp add: toUpperCase_examples)
  from up' have up2: "getProperty m ''DY'' = Str ''Norwegian''"
    by (simp add: toUpperCase_examples same)
  from m up1 up2 fx dy demo_getText_fx demo_getText_dy show ?thesis by blast
qed

subsection \<open>C5: cargo keywords in the display name\<close>




subsection \<open>C7: the order of the cargo flights\<close>

lemma displayName_upper: "\<exists>n. displayName m (toUpperCase c) = Str n"
proof (cases "m (toUpperCase c)")
  case None
  then show ?thesis
    by (simp add: displayName_def getProperty_def orElse_def toUpperCase_not_prototypeKey)
next
  case (Some v)
  then show ?thesis by (simp add: displayName_def getProperty_def orElse_def)
qed

lemma isCargoFlight_upper:
  "airline f = toUpperCase c \<Longrightarrow> \<exists>b. isCargoFlight f m = Inr b"
  using displayName_upper [of m c] by (auto simp: isCargoFlight_def Let_def)

lemma isCargoFlight_parsed: "\<exists>b. isCargoFlight (flightRecord f) m = Inr b"
  by (rule isCargoFlight_upper) (rule flightRecord_fields(1))

lemma filterCargo_total:
  "\<forall>f \<in> set fs. \<exists>b. isCargoFlight f m = Inr b \<Longrightarrow>
   filterCargo m fs = Inr (filter (\<lambda>f. isCargoFlight f m = Inr True) fs)"
proof (induction fs)
  case Nil
  then show ?case by simp
next
  case (Cons f fs)
  from Cons.prems obtain b where b: "isCargoFlight f m = Inr b" by auto
  from Cons.prems have "filterCargo m fs = Inr (filter (\<lambda>f. isCargoFlight f m = Inr True) fs)"
    by (intro Cons.IH) simp
  with b show ?case by simp
qed

lemma sortCompare_key:
  "keyComparator comparefn key xs \<Longrightarrow> a \<in> set xs \<Longrightarrow> b \<in> set xs \<Longrightarrow>
   sortCompare comparefn a b = key a - key b"
  by (simp add: keyComparator_def sortCompare_def)

lemma key_sort_conforms:
  assumes kc: "keyComparator comparefn key xs" and out: "ys = sort_key key xs"
  shows "mset ys = mset xs \<and>
        sorted_wrt (\<lambda>a b. sortCompare comparefn a b \<le> 0) ys \<and>
        (\<forall>x \<in> set xs. filter (\<lambda>y. sortCompare comparefn x y = 0) ys =
                       filter (\<lambda>y. sortCompare comparefn x y = 0) xs)"
proof (intro conjI ballI)
  show "mset ys = mset xs" by (simp add: out)
next
  have "sorted (map key ys)" by (simp add: out)
  then have "sorted_wrt (\<lambda>a b. key a \<le> key b) ys" by (simp add: sorted_map)
  moreover have "sortCompare comparefn a b \<le> 0" if "a \<in> set ys" "b \<in> set ys" "key a \<le> key b" for a b
    using that sortCompare_key [OF kc, of a b] by (simp add: out)
  ultimately show "sorted_wrt (\<lambda>a b. sortCompare comparefn a b \<le> 0) ys"
    by (rule sorted_wrt_mono_rel [rotated]) auto
next
  fix x assume x: "x \<in> set xs"
  have ys: "filter (\<lambda>y. sortCompare comparefn x y = 0) ys = filter (\<lambda>y. key y = key x) ys"
    by (rule filter_cong) (use x sortCompare_key [OF kc, of x] in \<open>auto simp: out\<close>)
  have xs: "filter (\<lambda>y. sortCompare comparefn x y = 0) xs = filter (\<lambda>y. key y = key x) xs"
    by (rule filter_cong) (use x sortCompare_key [OF kc, of x] in auto)
  have "filter (\<lambda>y. key y = key x) ys = filter (\<lambda>y. key y = key x) xs"
    unfolding out by (rule sort_key_stable)
  then show "filter (\<lambda>y. sortCompare comparefn x y = 0) ys =
        filter (\<lambda>y. sortCompare comparefn x y = 0) xs"
    by (simp only: ys xs)
qed

lemma strict_run_filter:
  "sorted_wrt (\<lambda>a b. key b < (key a :: int)) ys \<Longrightarrow> k \<in> set ys \<Longrightarrow>
   filter (\<lambda>x. key k = key x) ys = [k]"
proof (induction ys)
  case Nil
  then show ?case by simp
next
  case (Cons y ys)
  from Cons.prems(1) have tail: "sorted_wrt (\<lambda>a b. key b < key a) ys"
    and lt: "\<forall>z \<in> set ys. key z < key y"
    by simp_all
  show ?case
  proof (cases "k = y")
    case True
    with lt have "filter (\<lambda>x. key k = key x) ys = []" by (auto simp: filter_empty_conv)
    with True show ?thesis by simp
  next
    case False
    with Cons.prems(2) have k: "k \<in> set ys" by simp
    with lt have "key k \<noteq> key y" by auto
    moreover from tail k have "filter (\<lambda>x. key k = key x) ys = [k]" by (rule Cons.IH)
    ultimately show ?thesis by simp
  qed
qed

lemma descending_run_sort:
  assumes "sorted_wrt (\<lambda>a b. key b < (key a :: int)) ys"
  shows "sort_key key ys = rev ys"
proof (rule properties_for_sort_key)
  show "mset (rev ys) = mset ys" by simp
next
  from assms have "sorted_wrt (\<lambda>a b. key a < key b) (rev ys)" by (simp add: sorted_wrt_rev)
  then have "sorted_wrt (\<lambda>a b. key a \<le> key b) (rev ys)"
    by (rule sorted_wrt_mono_rel [rotated]) auto
  then show "sorted (map key (rev ys))" by (simp add: sorted_map)
next
  fix k assume "k \<in> set (rev ys)"
  then have "k \<in> set ys" by simp
  with assms have one: "filter (\<lambda>x. key k = key x) ys = [k]" by (rule strict_run_filter)
  have "filter (\<lambda>x. key k = key x) (rev ys) = rev (filter (\<lambda>x. key k = key x) ys)"
    by (rule rev_filter [symmetric])
  with one show "filter (\<lambda>x. key k = key x) (rev ys) = filter (\<lambda>x. key k = key x) ys"
    by simp
qed

lemma runTail_le: "runTail comparefn isDescending previousElement rest \<le> length rest"
  by (induction rest arbitrary: previousElement) (simp_all add: Let_def)

lemma runTail_ascending:
  "keyComparator comparefn key (previousElement # rest) \<Longrightarrow>
   sorted (map key (previousElement # take (runTail comparefn False previousElement rest) rest))"
proof (induction rest arbitrary: previousElement)
  case Nil
  then show ?case by simp
next
  case (Cons c rest)
  from Cons.prems have cmp: "sortCompare comparefn c previousElement = key c - key previousElement"
    by (intro sortCompare_key [of comparefn key "previousElement # c # rest"]) simp_all
  from Cons.prems have "keyComparator comparefn key (c # rest)"
    by (simp add: keyComparator_def)
  then have "sorted (map key (c # take (runTail comparefn False c rest) rest))"
    by (rule Cons.IH)
  with cmp show ?case by (fastforce simp: Let_def)
qed

lemma runTail_descending:
  "keyComparator comparefn key (previousElement # rest) \<Longrightarrow>
   sorted_wrt (\<lambda>a b. key b < key a)
     (previousElement # take (runTail comparefn True previousElement rest) rest)"
proof (induction rest arbitrary: previousElement)
  case Nil
  then show ?case by simp
next
  case (Cons c rest)
  from Cons.prems have cmp: "sortCompare comparefn c previousElement = key c - key previousElement"
    by (intro sortCompare_key [of comparefn key "previousElement # c # rest"]) simp_all
  from Cons.prems have "keyComparator comparefn key (c # rest)"
    by (simp add: keyComparator_def)
  then have "sorted_wrt (\<lambda>a b. key b < key a) (c # take (runTail comparefn True c rest) rest)"
    by (rule Cons.IH)
  with cmp show ?case by (auto simp: Let_def)
qed

lemma countAndMakeRun_key:
  assumes kc: "keyComparator comparefn key xs" and len: "2 \<le> length xs"
    and run: "countAndMakeRun comparefn xs = (workArray, runLength)"
  shows "runLength \<le> length xs \<and>
         workArray = sort_key key (take runLength xs) @ drop runLength xs"
proof -
  from len obtain h l rest where xs: "xs = h # l # rest"
    by (cases xs; cases "tl xs") auto
  let ?desc = "sortCompare comparefn l h < 0"
  let ?k = "runTail comparefn ?desc l rest"
  from kc have cmp: "sortCompare comparefn l h = key l - key h"
    unfolding xs by (intro sortCompare_key [of comparefn key "h # l # rest"]) simp_all
  from kc have tail: "keyComparator comparefn key (l # rest)"
    by (simp add: keyComparator_def xs)
  from run have n: "runLength = 2 + ?k"
    and ws: "workArray = (if ?desc then rev (take runLength xs) @ drop runLength xs else xs)"
    by (auto simp: xs Let_def)
  have le: "runLength \<le> length xs" using runTail_le [of comparefn ?desc l rest] by (simp add: n xs)
  have tk: "take runLength xs = h # l # take ?k rest" by (simp add: n xs)
  show ?thesis
  proof (cases ?desc)
    case True
    with tail have "sorted_wrt (\<lambda>a b. key b < key a) (l # take ?k rest)"
      using runTail_descending [of comparefn key l rest] by simp
    with True cmp have "sorted_wrt (\<lambda>a b. key b < key a) (take runLength xs)"
      unfolding tk by auto
    then have "sort_key key (take runLength xs) = rev (take runLength xs)"
      by (rule descending_run_sort)
    with True ws le show ?thesis by simp
  next
    case False
    with tail have "sorted (map key (l # take ?k rest))"
      using runTail_ascending [of comparefn key l rest] by simp
    with False cmp have "sorted (map key (take runLength xs))"
      unfolding tk by auto
    then have "sort_key key (take runLength xs) = take runLength xs"
      by (rule sort_key_id_if_sorted)
    with False ws le show ?thesis by simp
  qed
qed

lemma binarySearch_key:
  assumes "\<forall>i < start. sortCompare comparefn pivot (workArray ! i) = key pivot - key (workArray ! i)"
    and "\<forall>i j. i \<le> j \<and> j < start \<longrightarrow> key (workArray ! i) \<le> key (workArray ! j)"
    and "left \<le> right" and "right \<le> start"
    and "\<forall>i < left. key (workArray ! i) \<le> key pivot"
    and "\<forall>i. right \<le> i \<and> i < start \<longrightarrow> key pivot < key (workArray ! i)"
  shows "binarySearch comparefn pivot workArray left right \<le> start \<and>
     (\<forall>i < binarySearch comparefn pivot workArray left right. key (workArray ! i) \<le> key pivot) \<and>
     (\<forall>i. binarySearch comparefn pivot workArray left right \<le> i \<and> i < start \<longrightarrow>
          key pivot < key (workArray ! i))"
  using assms
proof (induction comparefn pivot workArray left right rule: binarySearch.induct)
  case (1 comparefn pivot workArray left right)
  show ?case
  proof (cases "left < right")
    case False
    with "1.prems"(3) have "left = right" by simp
    with "1.prems" show ?thesis by (simp add: binarySearch.simps [of comparefn pivot workArray right])
  next
    case True
    let ?mid = "left + (right - left) div 2"
    from True have mid: "left \<le> ?mid" "?mid < right" by auto
    with "1.prems"(4) have midlt: "?mid < start" by simp
    with "1.prems"(1) have cmp: "sortCompare comparefn pivot (workArray ! ?mid)
        = key pivot - key (workArray ! ?mid)"
      by blast
    show ?thesis
    proof (cases "sortCompare comparefn pivot (workArray ! ?mid) < 0")
      case lower: True
      have "\<forall>i. ?mid \<le> i \<and> i < start \<longrightarrow> key pivot < key (workArray ! i)"
      proof (intro allI impI)
        fix i assume i: "?mid \<le> i \<and> i < start"
        with "1.prems"(2) have "key (workArray ! ?mid) \<le> key (workArray ! i)" by blast
        with lower cmp show "key pivot < key (workArray ! i)" by simp
      qed
      with "1.prems" mid midlt
      have "binarySearch comparefn pivot workArray left ?mid \<le> start \<and>
         (\<forall>i < binarySearch comparefn pivot workArray left ?mid. key (workArray ! i) \<le> key pivot) \<and>
         (\<forall>i. binarySearch comparefn pivot workArray left ?mid \<le> i \<and> i < start \<longrightarrow>
              key pivot < key (workArray ! i))"
        by (intro "1.IH"(1) [OF True refl lower]) simp_all
      moreover have "binarySearch comparefn pivot workArray left right =
          binarySearch comparefn pivot workArray left ?mid"
        using True lower by (subst binarySearch.simps) (simp add: Let_def)
      ultimately show ?thesis by simp
    next
      case upper: False
      have "\<forall>i < ?mid + 1. key (workArray ! i) \<le> key pivot"
      proof (intro allI impI)
        fix i assume i: "i < ?mid + 1"
        with "1.prems"(2) midlt have "key (workArray ! i) \<le> key (workArray ! ?mid)" by simp
        with upper cmp show "key (workArray ! i) \<le> key pivot" by simp
      qed
      with "1.prems" mid midlt
      have "binarySearch comparefn pivot workArray (?mid + 1) right \<le> start \<and>
         (\<forall>i < binarySearch comparefn pivot workArray (?mid + 1) right.
              key (workArray ! i) \<le> key pivot) \<and>
         (\<forall>i. binarySearch comparefn pivot workArray (?mid + 1) right \<le> i \<and> i < start \<longrightarrow>
              key pivot < key (workArray ! i))"
        by (intro "1.IH"(2) [OF True refl upper]) simp_all
      moreover have "binarySearch comparefn pivot workArray left right =
          binarySearch comparefn pivot workArray (?mid + 1) right"
        using True upper by (subst binarySearch.simps) (simp add: Let_def)
      ultimately show ?thesis by simp
    qed
  qed
qed

lemma insert_after_equals:
  fixes key :: "'a \<Rightarrow> int"
  assumes l: "l \<le> length (sort_key key ys)"
    and le: "\<forall>i < l. key (sort_key key ys ! i) \<le> key x"
    and gt: "\<forall>i. l \<le> i \<and> i < length (sort_key key ys) \<longrightarrow> key x < key (sort_key key ys ! i)"
  shows "sort_key key (ys @ [x]) = take l (sort_key key ys) @ x # drop l (sort_key key ys)"
proof (rule properties_for_sort_key)
  let ?S = "sort_key key ys"
  have before: "key z \<le> key x" if "z \<in> set (take l ?S)" for z
  proof -
    from that obtain i where "i < length (take l ?S)" "z = take l ?S ! i"
      by (auto simp: in_set_conv_nth)
    with le show ?thesis by simp
  qed
  have after: "key x < key z" if "z \<in> set (drop l ?S)" for z
  proof -
    from that obtain i where "i < length (drop l ?S)" "z = drop l ?S ! i"
      by (auto simp: in_set_conv_nth)
    with gt l show ?thesis by simp
  qed
  have split: "?S = take l ?S @ drop l ?S" by simp
  show "mset (take l ?S @ x # drop l ?S) = mset (ys @ [x])"
  proof -
    have "mset (take l ?S) + mset (drop l ?S) = mset (take l ?S @ drop l ?S)"
      by (simp only: mset_append)
    also have "\<dots> = mset ?S" by (simp only: append_take_drop_id)
    also have "\<dots> = mset ys" by (rule mset_sort)
    finally show ?thesis by simp
  qed
  show "sorted (map key (take l ?S @ x # drop l ?S))"
  proof -
    have "sorted (map key ?S)" by (rule sorted_sort_key)
    then have "sorted (take l (map key ?S))" "sorted (drop l (map key ?S))"
      by (rule sorted_wrt_take, rule sorted_wrt_drop)
    then have "sorted (map key (take l ?S))" "sorted (map key (drop l ?S))"
      by (simp_all add: take_map drop_map)
    with before after show ?thesis by (fastforce simp: sorted_append)
  qed
  show "filter (\<lambda>z. key k = key z) (take l ?S @ x # drop l ?S) =
        filter (\<lambda>z. key k = key z) (ys @ [x])"
    if "k \<in> set (take l ?S @ x # drop l ?S)" for k
  proof -
    have stable: "filter (\<lambda>z. key k = key z) ?S = filter (\<lambda>z. key k = key z) ys"
      using sort_key_stable [of key "key k" ys] by (simp add: eq_commute)
    have parts: "filter (\<lambda>z. key k = key z) ?S =
        filter (\<lambda>z. key k = key z) (take l ?S) @ filter (\<lambda>z. key k = key z) (drop l ?S)"
      by (subst split) (simp only: filter_append)
    show ?thesis
    proof (cases "key k = key x")
      case True
      have "key k \<noteq> key z" if "z \<in> set (drop l ?S)" for z
        using after [OF that] True by simp
      then have "filter (\<lambda>z. key k = key z) (drop l ?S) = []"
        by (simp add: filter_empty_conv)
      with parts stable True show ?thesis by simp
    next
      case False
      with parts stable show ?thesis by simp
    qed
  qed
qed

lemma binaryInsertionSort_key:
  assumes kc: "keyComparator comparefn key xs"
  shows "start \<le> length xs \<Longrightarrow>
     workArray = sort_key key (take start xs) @ drop start xs \<Longrightarrow>
     binaryInsertionSort comparefn (length xs) workArray start = sort_key key xs"
proof (induction "length xs - start" arbitrary: workArray start)
  case 0
  then have "start = length xs" by simp
  with "0.prems"(2) show ?case by (simp add: binaryInsertionSort.simps)
next
  case (Suc n)
  let ?S = "sort_key key (take start xs)"
  let ?pivot = "workArray ! start"
  let ?left = "binarySearch comparefn ?pivot workArray 0 start"
  from Suc.hyps(2) have start: "start < length xs" by simp
  then have lenS: "length ?S = start" by simp
  have lenW: "length workArray = length xs" using start by (simp add: Suc.prems(2))
  have pivot: "?pivot = xs ! start"
    using start lenS by (simp add: Suc.prems(2) nth_append)
  have inS: "workArray ! i = ?S ! i" if "i < start" for i
    using that lenS by (simp add: Suc.prems(2) nth_append)
  have memS: "?S ! i \<in> set xs" if "i < start" for i
  proof -
    from that lenS have "?S ! i \<in> set ?S" by (intro nth_mem) simp
    then show ?thesis by (auto dest: in_set_takeD)
  qed
  have memP: "?pivot \<in> set xs" using start by (simp add: pivot)
  have cmp: "\<forall>i < start. sortCompare comparefn ?pivot (workArray ! i)
      = key ?pivot - key (workArray ! i)"
    using sortCompare_key [OF kc memP] memS inS by simp
  have "sorted (map key ?S)" by (rule sorted_sort_key)
  then have mono: "\<forall>i j. i \<le> j \<and> j < start \<longrightarrow> key (workArray ! i) \<le> key (workArray ! j)"
    using lenS inS by (auto simp: sorted_iff_nth_mono)
  from cmp mono
  have found: "?left \<le> start \<and> (\<forall>i < ?left. key (workArray ! i) \<le> key ?pivot) \<and>
      (\<forall>i. ?left \<le> i \<and> i < start \<longrightarrow> key ?pivot < key (workArray ! i))"
    by (rule binarySearch_key) simp_all
  then have l: "?left \<le> length ?S"
    and le: "\<forall>i < ?left. key (?S ! i) \<le> key ?pivot"
    and gt: "\<forall>i. ?left \<le> i \<and> i < length ?S \<longrightarrow> key ?pivot < key (?S ! i)"
    using lenS inS by auto
  from l le gt have ins: "sort_key key (take start xs @ [?pivot]) =
      take ?left ?S @ ?pivot # drop ?left ?S"
    by (rule insert_after_equals)
  have next_prefix: "take (Suc start) xs = take start xs @ [?pivot]"
    using start by (simp add: pivot take_Suc_conv_app_nth)
  have pieces: "take ?left workArray = take ?left ?S" "take start workArray = ?S"
      "drop (Suc start) workArray = drop (Suc start) xs"
    using l lenS by (simp_all add: Suc.prems(2))
  have "take ?left workArray @ ?pivot # drop ?left (take start workArray) @
          drop (Suc start) workArray =
        sort_key key (take (Suc start) xs) @ drop (Suc start) xs"
    by (simp only: pieces next_prefix ins append_assoc append_Cons)
  moreover from Suc.hyps(2) have "n = length xs - Suc start" by simp
  moreover from start have "Suc start \<le> length xs" by simp
  ultimately have "binaryInsertionSort comparefn (length xs)
      (take ?left workArray @ ?pivot # drop ?left (take start workArray) @
         drop (Suc start) workArray) (Suc start) = sort_key key xs"
    by (intro Suc.hyps(1))
  moreover have "binaryInsertionSort comparefn (length xs) workArray start =
      binaryInsertionSort comparefn (length xs)
        (take ?left workArray @ ?pivot # drop ?left (take start workArray) @
           drop (Suc start) workArray) (Suc start)"
    using start lenW by (subst binaryInsertionSort.simps) (simp add: Let_def)
  ultimately show ?case by simp
qed

lemma v8Sort_key:
  assumes kc: "keyComparator comparefn key xs"
  shows "v8Sort comparefn xs = sort_key key xs"
proof (cases "length xs < 2")
  case True
  then have "xs = [] \<or> (\<exists>x. xs = [x])" by (cases xs; cases "tl xs") auto
  then have "sort_key key xs = xs" by auto
  with True show ?thesis by (simp add: v8Sort_def)
next
  case False
  obtain workArray runLength where run: "countAndMakeRun comparefn xs = (workArray, runLength)"
    by (cases "countAndMakeRun comparefn xs")
  from kc False run have "runLength \<le> length xs \<and>
      workArray = sort_key key (take runLength xs) @ drop runLength xs"
    by (intro countAndMakeRun_key) simp_all
  then have "binaryInsertionSort comparefn (length xs) workArray runLength = sort_key key xs"
    using binaryInsertionSort_key [OF kc] by blast
  with False run show ?thesis by (simp add: v8Sort_def)
qed

lemma v8Sort_conforming: "conformingSort v8Sort"
  unfolding conformingSort_def
  by (intro allI impI key_sort_conforms) (auto simp: v8Sort_key)


text \<open>From the guarantee back to the sorted list.\<close>

lemma conforming_sort_key:
  assumes "conformingSort sortFn" and kc: "keyComparator comparefn key xs"
  shows "sortFn comparefn xs = sort_key key xs"
proof -
  let ?ys = "sortFn comparefn xs"
  from assms have m: "mset ?ys = mset xs"
    and srt: "sorted_wrt (\<lambda>a b. sortCompare comparefn a b \<le> 0) ?ys"
    and st: "\<And>x. x \<in> set xs \<Longrightarrow> filter (\<lambda>y. sortCompare comparefn x y = 0) ?ys =
                       filter (\<lambda>y. sortCompare comparefn x y = 0) xs"
    unfolding conformingSort_def by blast+
  from m have set: "set ?ys = set xs" by (rule mset_eq_setD)
  have "sort_key key xs = ?ys"
  proof (rule properties_for_sort_key)
    show "mset ?ys = mset xs" by (rule m)
  next
    have "key a \<le> key b" if "a \<in> set ?ys" "b \<in> set ?ys" "sortCompare comparefn a b \<le> 0" for a b
      using that sortCompare_key [OF kc, of a b] by (simp add: set)
    with srt have "sorted_wrt (\<lambda>a b. key a \<le> key b) ?ys"
      by (rule sorted_wrt_mono_rel [rotated]) auto
    then show "sorted (map key ?ys)" by (simp add: sorted_map)
  next
    fix k assume "k \<in> set ?ys"
    then have k: "k \<in> set xs" by (simp add: set)
    have ys: "filter (\<lambda>y. sortCompare comparefn k y = 0) ?ys = filter (\<lambda>y. key k = key y) ?ys"
      by (rule filter_cong) (use k sortCompare_key [OF kc, of k] in \<open>auto simp: set\<close>)
    have xs: "filter (\<lambda>y. sortCompare comparefn k y = 0) xs = filter (\<lambda>y. key k = key y) xs"
      by (rule filter_cong) (use k sortCompare_key [OF kc, of k] in auto)
    from st [OF k] show "filter (\<lambda>y. key k = key y) ?ys = filter (\<lambda>y. key k = key y) xs"
      by (simp only: ys xs)
  qed
  then show ?thesis by (rule sym)
qed

lemma compareSchedule_values:
  "compareSchedule P a b =
     (case scheduleValue P a of
        None \<Rightarrow> None
      | Some x \<Rightarrow> (case scheduleValue P b of None \<Rightarrow> None | Some y \<Rightarrow> Some (x - y)))"
  unfolding compareSchedule_def scheduleValue_def by (rule refl)

lemma compareSchedule_key:
  assumes valid: "\<forall>f \<in> set fs. scheduleValue P f \<noteq> None"
  shows "keyComparator (compareSchedule P) (\<lambda>f. the (scheduleValue P f)) fs"
  unfolding keyComparator_def
proof (intro ballI)
  fix a b assume "a \<in> set fs" "b \<in> set fs"
  with valid have "scheduleValue P a \<noteq> None" "scheduleValue P b \<noteq> None" by simp_all
  then obtain x y where "scheduleValue P a = Some x" "scheduleValue P b = Some y" by auto
  then show "compareSchedule P a b = Some (the (scheduleValue P a) - the (scheduleValue P b))"
    by (simp add: compareSchedule_values)
qed

lemma filter_singleton:
  assumes "mset xs = {#a, b, c#}" and "k \<in> {a, b, c}"
    and "key a < key b" and "key b < (key c :: int)"
  shows "filter (\<lambda>x. key k = key x) xs = [k]"
proof -
  have "mset (filter (\<lambda>x. key k = key x) xs) = filter_mset (\<lambda>x. key k = key x) {#a, b, c#}"
    by (simp add: assms(1))
  also have "\<dots> = {#k#}" using assms(2-4) by auto
  finally show ?thesis by (simp only: mset_single_iff)
qed

lemma sort_three:
  assumes "mset xs = {#a, b, c#}" and "key a < key b" and "key b < (key c :: int)"
  shows "sort_key key xs = [a, b, c]"
proof (rule properties_for_sort_key)
  show "mset [a, b, c] = mset xs" by (simp add: assms(1))
  show "sorted (map key [a, b, c])" using assms(2,3) by simp
  show "filter (\<lambda>x. key k = key x) [a, b, c] = filter (\<lambda>x. key k = key x) xs"
    if "k \<in> set [a, b, c]" for k
  proof -
    from that have k: "k \<in> {a, b, c}" by simp
    have "filter (\<lambda>x. key k = key x) xs = [k]"
      using assms(1) k assms(2,3) by (rule filter_singleton)
    moreover have "filter (\<lambda>x. key k = key x) [a, b, c] = [k]"
      using k assms(2,3) by auto
    ultimately show ?thesis by simp
  qed
qed


lemma demo_records:
  "flightRecord demoFlightQR = demoQR" "flightRecord demoFlightDY = demoDY"
  "flightRecord demoFlightFX = demoFX" "flightRecord demoFlight5X = demo5X"
  "flightRecord (Element ''flight'' [] []) = demoBlank" "flightRecord demoFlightD0 = demoD0"
  by (simp_all add: flightRecord_def getText_def leaf_def demo_trim toUpperCase_examples demoFlightQR_def demoFlightDY_def demoFlightFX_def demoFlight5X_def
      demoFlightD0_def demoQR_def demoDY_def demoFX_def demo5X_def demoBlank_def demoD0_def)

lemma demo_parseFlights:
  "parseFlights demoPlatform demoFlightsXml =
     Inr [demoQR, demoDY, demoFX, demo5X, demoBlank, demoD0]"
  by (simp add: parseFlights_eq demo_parse_flights demo_flight_elements demo_records)

lemma demo_lower:
  "toLowerCase ''Norwegian'' = ''norwegian''"
  "toLowerCase ''Federal Express Cargo'' = ''federal express cargo''"
  "toLowerCase [] = []"
  by (simp_all add: toLowerCase_def lowerChar_def lowerLetters_def upperLetters_def)

lemma demo_isCargo:
  "isCargoFlight demoQR demoDirectory = Inr True"
  "isCargoFlight demoDY demoDirectory = Inr False"
  "isCargoFlight demoFX demoDirectory = Inr True"
  "isCargoFlight demo5X demoDirectory = Inr True"
  "isCargoFlight demoBlank demoDirectory = Inr False"
  "isCargoFlight demoD0 demoDirectory = Inr True"
  by (simp_all add: isCargoFlight_def CARGO_CODES_def CARGO_KEYWORDS_def displayName_def
      getProperty_def orElse_def objectPrototypeKeys_def demoDirectory_def demo_lower
      demoQR_def demoDY_def demoFX_def demo5X_def demoBlank_def demoD0_def)

lemma demo_scheduleValues:
  "scheduleValue demoPlatform demoQR = Some 1718360100000"
  "scheduleValue demoPlatform demoFX = Some 1718354700000"
  "scheduleValue demoPlatform demo5X = Some 1718354700000"
  "scheduleValue demoPlatform demoD0 = Some 1718350200000"
  by (simp_all add: scheduleValue_def demoPlatform_def demoDateValue_def
      demoQR_def demoFX_def demo5X_def demoD0_def)

lemma demo_sort:
  "arraySort demoPlatform (compareSchedule demoPlatform) [demoQR, demoFX, demo5X, demoD0] =
     [demoD0, demoFX, demo5X, demoQR]"
proof -
  have "arraySort demoPlatform = v8Sort" by (simp add: demoPlatform_def)
  then show ?thesis
    by (simp add: v8Sort_def sortCompare_def compareSchedule_values demo_scheduleValues
        binaryInsertionSort.simps binarySearch.simps Let_def)
qed

lemma gap_parse: "parseFromString demoPlatform demoGapXml = demoGapDoc"
  by (simp add: demoPlatform_def demoParse_def demoGapXml_def demoFlightsXml_def
      demoAirlinesXml_def demoSoonXml_def)

lemma gap_trim: "trim ''QR'' = ''QR''" "trim ''QR101'' = ''QR101''" "trim ''QR102'' = ''QR102''"
  "trim ''QR103'' = ''QR103''" "trim ''QR105'' = ''QR105''"
  by (simp_all add: trim_def trimStart_def trimEnd_def dropTokens.simps leadingToken_def
      whiteSpaceCodes_def)

lemma gap_parseFlights:
  "parseFlights demoPlatform demoGapXml = Inr [demoGapLate, demoGapNone, demoGapEarly, demoGapLast]"
proof -
  have "toUpperCase ''QR'' = ''QR''"
    by (simp add: toUpperCase_def upperChar_def lowerLetters_def upperLetters_def)
  then show ?thesis
    by (simp add: parseFlights_eq gap_parse demoGapDoc_def docElementsByTagName_def leaf_def
        flightRecord_def getText_def gap_trim demo_trim demoGapLate_def demoGapNone_def
        demoGapEarly_def demoGapLast_def)
qed

lemma gap_isCargo:
  "isCargoFlight demoGapLate demoDirectory = Inr True"
  "isCargoFlight demoGapNone demoDirectory = Inr True"
  "isCargoFlight demoGapEarly demoDirectory = Inr True"
  "isCargoFlight demoGapLast demoDirectory = Inr True"
  by (simp_all add: isCargoFlight_def CARGO_CODES_def demoGapLate_def demoGapNone_def
      demoGapEarly_def demoGapLast_def)

lemma gap_scheduleValues:
  "scheduleValue demoPlatform demoGapLate = Some 1718354700000"
  "scheduleValue demoPlatform demoGapNone = None"
  "scheduleValue demoPlatform demoGapEarly = Some 1718350200000"
  "scheduleValue demoPlatform demoGapLast = Some 1718360100000"
  by (simp_all add: scheduleValue_def demoPlatform_def demoDateValue_def
      demoGapLate_def demoGapNone_def demoGapEarly_def demoGapLast_def)

lemma gap_sort:
  "arraySort demoPlatform (compareSchedule demoPlatform) [demoGapLate, demoGapNone, demoGapEarly, demoGapLast] =
     [demoGapLate, demoGapNone, demoGapEarly, demoGapLast]"
proof -
  have "arraySort demoPlatform = v8Sort" by (simp add: demoPlatform_def)
  then show ?thesis
    by (simp add: v8Sort_def sortCompare_def compareSchedule_values gap_scheduleValues
        binaryInsertionSort.simps Let_def)
qed

text \<open>
  Against C7 as stated. The four cargo flights of the second feed are scheduled, in feed
  order, at 08:45, at no time (the element is missing, which the parser accepts), at 07:30
  and at 10:15. Every comparison with the flight without a time is \<open>NaN\<close>, which the
  engine reads as \<open>+0\<close>; V8 compares neighbours only, finds the array to be one ascending
  run and leaves it as it is. The three flights with the times 07:30 < 08:45 < 10:15 come
  out in the order 08:45, 07:30, 10:15.
\<close>

theorem missing_time_breaks_order_counterexample:
  "selectCargoFlights demoPlatform demoGapXml demoAirlinesXml =
     Inr ([demoGapLate, demoGapNone, demoGapEarly, demoGapLast], demoDirectory) \<and>
   scheduleValue demoPlatform demoGapLate = Some 1718354700000 \<and>
   scheduleValue demoPlatform demoGapNone = None \<and>
   scheduleValue demoPlatform demoGapEarly = Some 1718350200000 \<and>
   scheduleValue demoPlatform demoGapLast = Some 1718360100000"
proof -
  have "filterCargo demoDirectory [demoGapLate, demoGapNone, demoGapEarly, demoGapLast] =
          Inr [demoGapLate, demoGapNone, demoGapEarly, demoGapLast]"
    by (simp add: gap_isCargo)
  then have "selectCargoFlights demoPlatform demoGapXml demoAirlinesXml =
          Inr ([demoGapLate, demoGapNone, demoGapEarly, demoGapLast], demoDirectory)"
    by (simp add: selectCargoFlights_def demo_directory gap_parseFlights gap_sort)
  then show ?thesis by (simp add: gap_scheduleValues)
qed

text \<open>
  C7, amended. The parse, filter and sort steps return normally: the flights handed to the
  renderer are what the engine's sort makes of the cargo flights among the parsed ones.
  When the scheduled time of every cargo flight is a valid date, and the engine's sort
  keeps to the language standard, they are in ascending order of the time value of
  \<open>scheduleTime\<close>, they are a rearrangement of the filtered flights, and the sort is stable:
  flights with one and the same time value keep their order of the filtered sequence. In
  particular any three cargo flights with time values T1 < T2 < T3 come out in the order
  T1, T2, T3 whatever their order in the feed. (A cargo flight whose scheduled time is
  missing or no date makes the comparator inconsistent, and the order is then the
  engine's own.)
\<close>

theorem cargoFlights_sorted_stable:
  "\<exists>m allFlights sortedFlights.
     parseAirlineNames P airlinesXml = Inr m \<and> parseFlights P flightsXml = Inr allFlights \<and>
     selectCargoFlights P flightsXml airlinesXml = Inr (sortedFlights, m) \<and>
     sortedFlights = arraySort P (compareSchedule P)
                       (filter (\<lambda>f. isCargoFlight f m = Inr True) allFlights) \<and>
     (conformingSort (arraySort P) \<and>
      (\<forall>f \<in> set (filter (\<lambda>f. isCargoFlight f m = Inr True) allFlights).
          scheduleValue P f \<noteq> None) \<longrightarrow>
        sorted (map (\<lambda>f. the (scheduleValue P f)) sortedFlights) \<and>
        mset sortedFlights = mset (filter (\<lambda>f. isCargoFlight f m = Inr True) allFlights) \<and>
        (\<forall>t. filter (\<lambda>f. the (scheduleValue P f) = t) sortedFlights =
             filter (\<lambda>f. the (scheduleValue P f) = t)
               (filter (\<lambda>f. isCargoFlight f m = Inr True) allFlights)) \<and>
        (\<forall>a b c.
           mset (filter (\<lambda>f. f = a \<or> f = b \<or> f = c)
                   (filter (\<lambda>f. isCargoFlight f m = Inr True) allFlights)) = {#a, b, c#} \<and>
           the (scheduleValue P a) < the (scheduleValue P b) \<and>
           the (scheduleValue P b) < the (scheduleValue P c) \<longrightarrow>
           filter (\<lambda>f. f = a \<or> f = b \<or> f = c) sortedFlights = [a, b, c]))"
proof -
  let ?key = "\<lambda>f. the (scheduleValue P f)"
  obtain m where m: "parseAirlineNames P airlinesXml = Inr m"
    by (simp add: parseAirlineNames_def)
  let ?all = "map flightRecord (docElementsByTagName (parseFromString P flightsXml) ''flight'')"
  let ?cargo = "filter (\<lambda>f. isCargoFlight f m = Inr True) ?all"
  let ?out = "arraySort P (compareSchedule P) ?cargo"
  have all: "parseFlights P flightsXml = Inr ?all" by (rule parseFlights_eq)
  have "\<forall>f \<in> set ?all. \<exists>b. isCargoFlight f m = Inr b"
    using isCargoFlight_parsed by auto
  then have cargo: "filterCargo m ?all = Inr ?cargo" by (rule filterCargo_total)
  have sel: "selectCargoFlights P flightsXml airlinesXml = Inr (?out, m)"
    by (simp add: selectCargoFlights_def m all cargo)
  have props: "sorted (map ?key ?out) \<and> mset ?out = mset ?cargo \<and>
      (\<forall>t. filter (\<lambda>f. ?key f = t) ?out = filter (\<lambda>f. ?key f = t) ?cargo) \<and>
      (\<forall>a b c. mset (filter (\<lambda>f. f = a \<or> f = b \<or> f = c) ?cargo) = {#a, b, c#} \<and>
          ?key a < ?key b \<and> ?key b < ?key c
          \<longrightarrow> filter (\<lambda>f. f = a \<or> f = b \<or> f = c) ?out = [a, b, c])"
    if conf: "conformingSort (arraySort P)"
      and valid: "\<forall>f \<in> set ?cargo. scheduleValue P f \<noteq> None"
  proof -
    from valid have "keyComparator (compareSchedule P) ?key ?cargo"
      by (rule compareSchedule_key)
    with conf have out: "?out = sort_key ?key ?cargo" by (rule conforming_sort_key)
    have "sorted (map ?key ?out)" unfolding out by (rule sorted_sort_key)
    moreover have "mset ?out = mset ?cargo" unfolding out by (rule mset_sort)
    moreover have "filter (\<lambda>f. ?key f = t) ?out = filter (\<lambda>f. ?key f = t) ?cargo" for t
      unfolding out by (rule sort_key_stable)
    moreover have "filter (\<lambda>f. f = a \<or> f = b \<or> f = c) ?out = [a, b, c]"
      if "mset (filter (\<lambda>f. f = a \<or> f = b \<or> f = c) ?cargo) = {#a, b, c#}"
         "?key a < ?key b" "?key b < ?key c" for a b c
      unfolding out filter_sort using that by (rule sort_three)
    ultimately show ?thesis by blast
  qed
  from m all sel props show ?thesis by blast
qed

text \<open>
  On the example feeds the cargo flights are, in feed order, QR (10:15), FX (08:45),
  5X (08:45) and D0 (07:30); they come out as D0, FX, 5X, QR, with FX still before 5X. The
  sort of the example platform, the one of V8, keeps to the standard.
\<close>

theorem cargoFlights_sorted_stable_witness:
  "conformingSort (arraySort demoPlatform) \<and>
   selectCargoFlights demoPlatform demoFlightsXml demoAirlinesXml =
     Inr ([demoD0, demoFX, demo5X, demoQR], demoDirectory) \<and>
   filter (\<lambda>f. isCargoFlight f demoDirectory = Inr True)
     [demoQR, demoDY, demoFX, demo5X, demoBlank, demoD0] = [demoQR, demoFX, demo5X, demoD0] \<and>
   scheduleValue demoPlatform demoQR = Some 1718360100000 \<and>
   scheduleValue demoPlatform demoFX = Some 1718354700000 \<and>
   scheduleValue demoPlatform demo5X = Some 1718354700000 \<and>
   scheduleValue demoPlatform demoD0 = Some 1718350200000 \<and>
   sorted (map (\<lambda>f. the (scheduleValue demoPlatform f)) [demoD0, demoFX, demo5X, demoQR]) \<and>
   filter (\<lambda>f. the (scheduleValue demoPlatform f) = 1718354700000)
     [demoD0, demoFX, demo5X, demoQR] = [demoFX, demo5X] \<and>
   filter (\<lambda>f. f = demoD0 \<or> f = demoFX \<or> f = demoQR) [demoQR, demoFX, demo5X, demoD0]
     = [demoQR, demoFX, demoD0] \<and>
   filter (\<lambda>f. f = demoD0 \<or> f = demoFX \<or> f = demoQR) [demoD0, demoFX, demo5X, demoQR]
     = [demoD0, demoFX, demoQR]"
proof -
  let ?all = "[demoQR, demoDY, demoFX, demo5X, demoBlank, demoD0]"
  let ?cargo = "[demoQR, demoFX, demo5X, demoD0]"
  let ?out = "[demoD0, demoFX, demo5X, demoQR]"
  have cargo: "filter (\<lambda>f. isCargoFlight f demoDirectory = Inr True) ?all = ?cargo"
    by (simp add: demo_isCargo)
  have "filterCargo demoDirectory ?all = Inr ?cargo"
    by (simp add: demo_isCargo)
  then have sel: "selectCargoFlights demoPlatform demoFlightsXml demoAirlinesXml
               = Inr (?out, demoDirectory)"
    by (simp add: selectCargoFlights_def demo_directory demo_parseFlights demo_sort)
  have valid: "\<forall>f \<in> set ?cargo. scheduleValue demoPlatform f \<noteq> None"
    by (simp add: demo_scheduleValues)
  have conf: "conformingSort (arraySort demoPlatform)"
    using v8Sort_conforming [where ?'a = flight] by (simp add: demoPlatform_def)
  from cargoFlights_sorted_stable [of demoPlatform demoAirlinesXml demoFlightsXml]
  obtain m allFlights sortedFlights where
    "parseAirlineNames demoPlatform demoAirlinesXml = Inr m"
    "parseFlights demoPlatform demoFlightsXml = Inr allFlights"
    "selectCargoFlights demoPlatform demoFlightsXml demoAirlinesXml = Inr (sortedFlights, m)"
    and imp: "conformingSort (arraySort demoPlatform) \<and>
        (\<forall>f \<in> set (filter (\<lambda>f. isCargoFlight f m = Inr True) allFlights).
          scheduleValue demoPlatform f \<noteq> None) \<longrightarrow>
        sorted (map (\<lambda>f. the (scheduleValue demoPlatform f)) sortedFlights) \<and>
        mset sortedFlights = mset (filter (\<lambda>f. isCargoFlight f m = Inr True) allFlights) \<and>
        (\<forall>t. filter (\<lambda>f. the (scheduleValue demoPlatform f) = t) sortedFlights =
             filter (\<lambda>f. the (scheduleValue demoPlatform f) = t)
               (filter (\<lambda>f. isCargoFlight f m = Inr True) allFlights)) \<and>
        (\<forall>a b c.
           mset (filter (\<lambda>f. f = a \<or> f = b \<or> f = c)
                   (filter (\<lambda>f. isCargoFlight f m = Inr True) allFlights)) = {#a, b, c#} \<and>
           the (scheduleValue demoPlatform a) < the (scheduleValue demoPlatform b) \<and>
           the (scheduleValue demoPlatform b) < the (scheduleValue demoPlatform c) \<longrightarrow>
           filter (\<lambda>f. f = a \<or> f = b \<or> f = c) sortedFlights = [a, b, c])"
    by blast
  then have eqs: "m = demoDirectory" "allFlights = ?all" "sortedFlights = ?out"
    by (simp_all add: demo_directory demo_parseFlights sel)
  from imp valid conf have concl:
      "sorted (map (\<lambda>f. the (scheduleValue demoPlatform f)) ?out) \<and>
       (\<forall>t. filter (\<lambda>f. the (scheduleValue demoPlatform f) = t) ?out =
            filter (\<lambda>f. the (scheduleValue demoPlatform f) = t) ?cargo) \<and>
       (\<forall>a b c. mset (filter (\<lambda>f. f = a \<or> f = b \<or> f = c) ?cargo) = {#a, b, c#} \<and>
           the (scheduleValue demoPlatform a) < the (scheduleValue demoPlatform b) \<and>
           the (scheduleValue demoPlatform b) < the (scheduleValue demoPlatform c) \<longrightarrow>
           filter (\<lambda>f. f = a \<or> f = b \<or> f = c) ?out = [a, b, c])"
    unfolding eqs cargo by blast
  then have stable: "sorted (map (\<lambda>f. the (scheduleValue demoPlatform f)) ?out) \<and>
      filter (\<lambda>f. the (scheduleValue demoPlatform f) = 1718354700000) ?out = [demoFX, demo5X]"
    by (simp add: demo_scheduleValues)
  have three: "filter (\<lambda>f. f = demoD0 \<or> f = demoFX \<or> f = demoQR) ?cargo
                 = [demoQR, demoFX, demoD0]"
    by (simp add: demoQR_def demoFX_def demo5X_def demoD0_def)
  then have "mset (filter (\<lambda>f. f = demoD0 \<or> f = demoFX \<or> f = demoQR) ?cargo)
               = {#demoD0, demoFX, demoQR#}"
    by simp
  moreover have "the (scheduleValue demoPlatform demoD0) < the (scheduleValue demoPlatform demoFX)"
    "the (scheduleValue demoPlatform demoFX) < the (scheduleValue demoPlatform demoQR)"
    by (simp_all add: demo_scheduleValues)
  ultimately have "filter (\<lambda>f. f = demoD0 \<or> f = demoFX \<or> f = demoQR) ?out
                     = [demoD0, demoFX, demoQR]"
    using concl by blast
  with conf sel cargo stable three show ?thesis by (simp add: demo_scheduleValues)
qed


subsection \<open>C1: failures of the pipeline\<close>

lemma select_total:
  "\<exists>m allFlights cargoFlights.
     parseAirlineNames P airlinesXml = Inr m \<and> parseFlights P flightsXml = Inr allFlights \<and>
     filterCargo m allFlights = Inr cargoFlights \<and>
     selectCargoFlights P flightsXml airlinesXml =
       Inr (arraySort P (compareSchedule P) cargoFlights, m)"
proof -
  obtain m where m: "parseAirlineNames P airlinesXml = Inr m"
    by (simp add: parseAirlineNames_def)
  let ?all = "map flightRecord (docElementsByTagName (parseFromString P flightsXml) ''flight'')"
  let ?cargo = "filter (\<lambda>f. isCargoFlight f m = Inr True) ?all"
  have all: "parseFlights P flightsXml = Inr ?all" by (rule parseFlights_eq)
  have "\<forall>f \<in> set ?all. \<exists>b. isCargoFlight f m = Inr b"
    using isCargoFlight_parsed by auto
  then have cargo: "filterCargo m ?all = Inr ?cargo" by (rule filterCargo_total)
  have "selectCargoFlights P flightsXml airlinesXml =
          Inr (arraySort P (compareSchedule P) ?cargo, m)"
    by (simp add: selectCargoFlights_def m all cargo)
  with m all cargo show ?thesis by blast
qed

lemma renderLoop_ok:
  "map (flightRow P m) fs = map Inr rows \<Longrightarrow> renderLoop P m fs acc = (acc @ rows, None)"
proof (induction fs arbitrary: rows acc)
  case Nil
  then show ?case by simp
next
  case (Cons f fs)
  then obtain r rs where rows: "rows = r # rs" and r: "flightRow P m f = Inr r"
    and rest: "map (flightRow P m) fs = map Inr rs"
    by (cases rows) auto
  from rest have "renderLoop P m fs (acc @ [r]) = ((acc @ [r]) @ rs, None)" by (rule Cons.IH)
  with r rows show ?case by simp
qed

lemma renderLoop_fail:
  "map (flightRow P m) shown = map Inr rows \<Longrightarrow> flightRow P m f = Inl e \<Longrightarrow>
   renderLoop P m (shown @ f # rest) acc = (acc @ rows, Some e)"
proof (induction shown arbitrary: rows acc)
  case Nil
  then show ?case by simp
next
  case (Cons g gs)
  then obtain r rs where rows: "rows = r # rs" and r: "flightRow P m g = Inr r"
    and rest: "map (flightRow P m) gs = map Inr rs"
    by (cases rows) auto
  from rest Cons.prems(2)
  have "renderLoop P m (gs @ f # rest) (acc @ [r]) = ((acc @ [r]) @ rs, Some e)"
    by (rule Cons.IH)
  with r rows show ?case by simp
qed

lemma renderLoop_cases:
  "(\<exists>rows. map (flightRow P m) fs = map Inr rows) \<or>
   (\<exists>shown rows f rest e. fs = shown @ f # rest \<and> map (flightRow P m) shown = map Inr rows \<and>
      flightRow P m f = Inl e)"
proof (induction fs)
  case Nil
  then show ?case by simp
next
  case (Cons g gs)
  show ?case
  proof (cases "flightRow P m g")
    case (Inl e)
    then have "g # gs = [] @ g # gs \<and> map (flightRow P m) [] = map Inr [] \<and>
        flightRow P m g = Inl e"
      by simp
    then show ?thesis by blast
  next
    case (Inr r)
    from Cons.IH show ?thesis
    proof
      assume "\<exists>rows. map (flightRow P m) gs = map Inr rows"
      then obtain rows where "map (flightRow P m) gs = map Inr rows" ..
      with Inr have "map (flightRow P m) (g # gs) = map Inr (r # rows)" by simp
      then show ?thesis by blast
    next
      assume "\<exists>shown rows f rest e. gs = shown @ f # rest \<and>
          map (flightRow P m) shown = map Inr rows \<and> flightRow P m f = Inl e"
      then obtain shown rows f rest e where "gs = shown @ f # rest"
          "map (flightRow P m) shown = map Inr rows" "flightRow P m f = Inl e"
        by blast
      with Inr have "g # gs = (g # shown) @ f # rest \<and>
          map (flightRow P m) (g # shown) = map Inr (r # rows) \<and> flightRow P m f = Inl e"
        by simp
      then show ?thesis by blast
    qed
  qed
qed

lemma renderFlights_complete:
  "completeTable P m fs rows \<Longrightarrow> renderFlights P fs m tbody = (rows, None)"
  using renderLoop_ok [of P m fs rows "[]"]
  by (cases "fs = []") (simp_all add: completeTable_def renderFlights_def)

lemma renderFlights_fail:
  "map (flightRow P m) shown = map Inr rows \<Longrightarrow> flightRow P m f = Inl e \<Longrightarrow>
   renderFlights P (shown @ f # rest) m tbody = (rows, Some e)"
  using renderLoop_fail [of P m shown rows f e rest "[]"] by (simp add: renderFlights_def)

lemma renderFlights_cases:
  "(\<exists>rows. completeTable P m fs rows \<and> renderFlights P fs m tbody = (rows, None)) \<or>
   (\<exists>rows e. renderFlights P fs m tbody = (rows, Some e))"
proof (cases "fs = []")
  case True
  then show ?thesis by (simp add: completeTable_def renderFlights_def)
next
  case False
  from renderLoop_cases [of P m fs] show ?thesis
  proof
    assume "\<exists>rows. map (flightRow P m) fs = map Inr rows"
    then obtain rows where "map (flightRow P m) fs = map Inr rows" ..
    with False have "completeTable P m fs rows" by (simp add: completeTable_def)
    then show ?thesis using renderFlights_complete by blast
  next
    assume "\<exists>shown rows f rest e. fs = shown @ f # rest \<and>
        map (flightRow P m) shown = map Inr rows \<and> flightRow P m f = Inl e"
    then show ?thesis using renderFlights_fail by blast
  qed
qed

lemma loadFlights_thrown:
  "tryBlock P net [loadingRow] = (tbody, Some e) \<Longrightarrow> loadFlights P net pg = errorPage pg e"
  by (simp add: loadFlights_def errorPage_def)

lemma loadFlights_returned:
  "tryBlock P net [loadingRow] = (tbody, None) \<Longrightarrow> loadFlights P net pg = pg\<lparr>tableBody := tbody\<rparr>"
  by (simp add: loadFlights_def)

lemma demo_select_500:
  "selectCargoFlights demoPlatform ''Internal Server Error'' demoAirlinesXml
     = Inr ([], demoDirectory)"
proof -
  have "parseFlights demoPlatform ''Internal Server Error'' = Inr []"
    by (simp add: parseFlights_def docElementsByTagName_def demoPlatform_def demoParse_def
        demoAirlinesXml_def demoFlightsXml_def demoGapXml_def demoSoonXml_def)
  moreover have "arraySort demoPlatform (compareSchedule demoPlatform) [] = []"
    by (simp add: demoPlatform_def v8Sort_def)
  ultimately show ?thesis by (simp add: selectCargoFlights_def demo_directory)
qed

text \<open>
  Against C1 as stated. The flight request is answered with the status 500 and a body that
  is no XML, the directory request succeeds. No error is surfaced: the page shows the
  placeholder row of an empty result.
\<close>

theorem http_error_not_surfaced_counterexample:
  "nonSuccess (flightFetch demoNet500) \<and>
   loadFlights demoPlatform demoNet500 emptyPage =
     \<lparr> tableBody = [MessageRow ''No cargo flights found in the selected timeframe.''],
       console = [] \<rparr>"
proof -
  from demo_select_500 show ?thesis
    by (simp add: demoNet500_def loadFlights_def tryBlock_def promiseAll_def renderFlights_def
        emptyPage_def)
qed

text \<open>
  C1, amended. A retrieval request fails for the script only in transport: its \<open>fetch\<close>
  promise rejects, or reading the body of its response does. Then the pipeline aborts before
  parsing, filtering, sorting and rendering: whatever the platform's parser, sort and
  formatter, the page ends with exactly one row, the message \<open>Error fetching flight data: \<close>
  followed by the message of the error of that failure, and with that one error logged.
  The error is the one of the rejected request (of the request that rejects first when
  both do), else the one of reading the flight body, else the one of reading the directory
  body. A non-success HTTP response is no failure: the status is never read, and the
  outcome is the one for the same bodies with status 200. Once both bodies are read the
  two parse steps and the filter never fail, whatever the payloads; the table then is the
  complete table of the sorted cargo flights (the placeholder row for none, else the row of
  every flight, in order), or, when the row of a flight cannot be rendered, the one row
  of the message of that error (for the first such flight), which is logged. So in every
  case the page ends as one error row or as the complete table: a partial table is never
  left.
\<close>

theorem loadFlights_outcome:
  "(flightFetch net = Rejected e \<and> \<not> (rejected (airlinesFetch net) \<and> airlinesRejectsFirst net)
      \<longrightarrow> loadFlights P net pg = errorPage pg e) \<and>
   (airlinesFetch net = Rejected e \<and> (rejected (flightFetch net) \<longrightarrow> airlinesRejectsFirst net)
      \<longrightarrow> loadFlights P net pg = errorPage pg e) \<and>
   (flightFetch net = Fulfilled flightRes \<and> airlinesFetch net = Fulfilled airlinesRes \<and>
    bodyText flightRes = Rejected e
      \<longrightarrow> loadFlights P net pg = errorPage pg e) \<and>
   (flightFetch net = Fulfilled flightRes \<and> airlinesFetch net = Fulfilled airlinesRes \<and>
    bodyText flightRes = Fulfilled flightsXml \<and> bodyText airlinesRes = Rejected e
      \<longrightarrow> loadFlights P net pg = errorPage pg e) \<and>
   (transportFailure net \<longrightarrow> (\<exists>e'. \<forall>P'. loadFlights P' net pg = errorPage pg e')) \<and>
   (\<forall>st st' b b'.
      loadFlights P (net\<lparr>flightFetch := Fulfilled (Response st b),
                         airlinesFetch := Fulfilled (Response st' b')\<rparr>) pg =
      loadFlights P (net\<lparr>flightFetch := Fulfilled (Response 200 b),
                         airlinesFetch := Fulfilled (Response 200 b')\<rparr>) pg) \<and>
   (flightFetch net = Fulfilled flightRes \<and> airlinesFetch net = Fulfilled airlinesRes \<and>
    bodyText flightRes = Fulfilled flightsXml \<and> bodyText airlinesRes = Fulfilled airlinesXml
      \<longrightarrow> (\<exists>m allFlights cargoFlights.
             parseAirlineNames P airlinesXml = Inr m \<and>
             parseFlights P flightsXml = Inr allFlights \<and>
             filterCargo m allFlights = Inr cargoFlights \<and>
             (\<forall>rows. completeTable P m (arraySort P (compareSchedule P) cargoFlights) rows
                \<longrightarrow> loadFlights P net pg = pg\<lparr>tableBody := rows\<rparr>) \<and>
             (\<forall>shown rows f rest e'.
                arraySort P (compareSchedule P) cargoFlights = shown @ f # rest \<and>
                map (flightRow P m) shown = map Inr rows \<and> flightRow P m f = Inl e'
                \<longrightarrow> loadFlights P net pg = errorPage pg e'))) \<and>
   ((\<exists>e'. loadFlights P net pg = errorPage pg e') \<or>
    (\<exists>flightRes airlinesRes flightsXml airlinesXml sortedFlights m.
       flightFetch net = Fulfilled flightRes \<and> airlinesFetch net = Fulfilled airlinesRes \<and>
       bodyText flightRes = Fulfilled flightsXml \<and>
       bodyText airlinesRes = Fulfilled airlinesXml \<and>
       selectCargoFlights P flightsXml airlinesXml = Inr (sortedFlights, m) \<and>
       completeTable P m sortedFlights (tableBody (loadFlights P net pg)) \<and>
       console (loadFlights P net pg) = console pg))"
proof -
  have thrown: "loadFlights P' net pg = errorPage pg e'"
    if "tryBlock P' net [loadingRow] = ([loadingRow], Some e')" for P' e'
    using that by (rule loadFlights_thrown)
  have c1: "loadFlights P net pg = errorPage pg e"
    if "flightFetch net = Rejected e \<and>
        \<not> (rejected (airlinesFetch net) \<and> airlinesRejectsFirst net)"
  proof (rule thrown)
    from that show "tryBlock P net [loadingRow] = ([loadingRow], Some e)"
      by (cases "airlinesFetch net") (auto simp: tryBlock_def promiseAll_def)
  qed
  have c2: "loadFlights P net pg = errorPage pg e"
    if "airlinesFetch net = Rejected e \<and> (rejected (flightFetch net) \<longrightarrow> airlinesRejectsFirst net)"
  proof (rule thrown)
    from that show "tryBlock P net [loadingRow] = ([loadingRow], Some e)"
      by (cases "flightFetch net") (auto simp: tryBlock_def promiseAll_def)
  qed
  have c3: "loadFlights P net pg = errorPage pg e"
    if "flightFetch net = Fulfilled flightRes \<and> airlinesFetch net = Fulfilled airlinesRes \<and>
        bodyText flightRes = Rejected e"
  proof (rule thrown)
    from that show "tryBlock P net [loadingRow] = ([loadingRow], Some e)"
      by (simp add: tryBlock_def promiseAll_def)
  qed
  have c4: "loadFlights P net pg = errorPage pg e"
    if "flightFetch net = Fulfilled flightRes \<and> airlinesFetch net = Fulfilled airlinesRes \<and>
        bodyText flightRes = Fulfilled flightsXml \<and> bodyText airlinesRes = Rejected e"
  proof (rule thrown)
    from that show "tryBlock P net [loadingRow] = ([loadingRow], Some e)"
      by (simp add: tryBlock_def promiseAll_def)
  qed
  have c5: "\<exists>e'. \<forall>P'. loadFlights P' net pg = errorPage pg e'" if fails: "transportFailure net"
  proof -
    have "\<exists>e'. \<forall>P'. tryBlock P' net [loadingRow] = ([loadingRow], Some e')"
    proof (cases "promiseAll net")
      case (Rejected e')
      then show ?thesis by (simp add: tryBlock_def)
    next
      case (Fulfilled pair)
      obtain fr ar where pair: "pair = (fr, ar)" by (cases pair)
      from Fulfilled pair have fetch: "flightFetch net = Fulfilled fr"
          "airlinesFetch net = Fulfilled ar"
        by (auto simp: promiseAll_def split: promise.splits)
      with fails have body: "rejected (bodyText fr) \<or> rejected (bodyText ar)"
        by (simp add: transportFailure_def)
      show ?thesis
      proof (cases "bodyText fr")
        case (Rejected e')
        then show ?thesis by (simp add: tryBlock_def Fulfilled pair)
      next
        case flightsXml: (Fulfilled x)
        with body obtain e' where "bodyText ar = Rejected e'"
          by (cases "bodyText ar") auto
        with flightsXml show ?thesis by (simp add: tryBlock_def Fulfilled pair)
      qed
    qed
    then obtain e' where "\<forall>P'. tryBlock P' net [loadingRow] = ([loadingRow], Some e')" ..
    then have "\<forall>P'. loadFlights P' net pg = errorPage pg e'" using thrown by blast
    then show ?thesis ..
  qed
  have c6: "\<forall>st st' b b'.
      loadFlights P (net\<lparr>flightFetch := Fulfilled (Response st b),
                         airlinesFetch := Fulfilled (Response st' b')\<rparr>) pg =
      loadFlights P (net\<lparr>flightFetch := Fulfilled (Response 200 b),
                         airlinesFetch := Fulfilled (Response 200 b')\<rparr>) pg"
    by (simp add: loadFlights_def tryBlock_def promiseAll_def split: promise.splits)
  have c7: "\<exists>m allFlights cargoFlights.
             parseAirlineNames P airlinesXml = Inr m \<and>
             parseFlights P flightsXml = Inr allFlights \<and>
             filterCargo m allFlights = Inr cargoFlights \<and>
             (\<forall>rows. completeTable P m (arraySort P (compareSchedule P) cargoFlights) rows
                \<longrightarrow> loadFlights P net pg = pg\<lparr>tableBody := rows\<rparr>) \<and>
             (\<forall>shown rows f rest e'.
                arraySort P (compareSchedule P) cargoFlights = shown @ f # rest \<and>
                map (flightRow P m) shown = map Inr rows \<and> flightRow P m f = Inl e'
                \<longrightarrow> loadFlights P net pg = errorPage pg e')"
    if read: "flightFetch net = Fulfilled flightRes \<and> airlinesFetch net = Fulfilled airlinesRes \<and>
      bodyText flightRes = Fulfilled flightsXml \<and> bodyText airlinesRes = Fulfilled airlinesXml"
  proof -
    from select_total [of P airlinesXml flightsXml]
    obtain m allFlights cargoFlights where
      parsed: "parseAirlineNames P airlinesXml = Inr m" "parseFlights P flightsXml = Inr allFlights"
        "filterCargo m allFlights = Inr cargoFlights"
      and sel: "selectCargoFlights P flightsXml airlinesXml =
                  Inr (arraySort P (compareSchedule P) cargoFlights, m)"
      by blast
    let ?sorted = "arraySort P (compareSchedule P) cargoFlights"
    from read sel have block: "tryBlock P net [loadingRow] = renderFlights P ?sorted m [loadingRow]"
      by (simp add: tryBlock_def promiseAll_def)
    have "loadFlights P net pg = pg\<lparr>tableBody := rows\<rparr>" if "completeTable P m ?sorted rows"
      for rows
    proof -
      from that have "renderFlights P ?sorted m [loadingRow] = (rows, None)"
        by (rule renderFlights_complete)
      with block show ?thesis by (simp add: loadFlights_def)
    qed
    moreover have "loadFlights P net pg = errorPage pg e'"
      if "?sorted = shown @ f # rest \<and> map (flightRow P m) shown = map Inr rows \<and>
          flightRow P m f = Inl e'" for shown rows f rest e'
    proof -
      from that have "renderFlights P ?sorted m [loadingRow] = (rows, Some e')"
        using renderFlights_fail [of P m shown rows f e' rest "[loadingRow]"] by simp
      with block show ?thesis by (simp add: loadFlights_def errorPage_def)
    qed
    ultimately show ?thesis using parsed by blast
  qed
  have c8: "(\<exists>e'. loadFlights P net pg = errorPage pg e') \<or>
    (\<exists>flightRes airlinesRes flightsXml airlinesXml sortedFlights m.
       flightFetch net = Fulfilled flightRes \<and> airlinesFetch net = Fulfilled airlinesRes \<and>
       bodyText flightRes = Fulfilled flightsXml \<and>
       bodyText airlinesRes = Fulfilled airlinesXml \<and>
       selectCargoFlights P flightsXml airlinesXml = Inr (sortedFlights, m) \<and>
       completeTable P m sortedFlights (tableBody (loadFlights P net pg)) \<and>
       console (loadFlights P net pg) = console pg)"
  proof (cases "transportFailure net")
    case True
    then show ?thesis using c5 by blast
  next
    case False
    then obtain fr ar fx ax where read: "flightFetch net = Fulfilled fr"
        "airlinesFetch net = Fulfilled ar" "bodyText fr = Fulfilled fx" "bodyText ar = Fulfilled ax"
      unfolding transportFailure_def
      by (cases "flightFetch net"; cases "airlinesFetch net")
        (auto elim!: rejected.elims)
    from select_total [of P ax fx]
    obtain sortedFlights m where sel: "selectCargoFlights P fx ax = Inr (sortedFlights, m)"
      by blast
    with read have block: "tryBlock P net [loadingRow] = renderFlights P sortedFlights m [loadingRow]"
      by (simp add: tryBlock_def promiseAll_def)
    from renderFlights_cases [of P m sortedFlights "[loadingRow]"] show ?thesis
    proof
      assume "\<exists>rows. completeTable P m sortedFlights rows \<and>
          renderFlights P sortedFlights m [loadingRow] = (rows, None)"
      then obtain rows where rows: "completeTable P m sortedFlights rows"
          "renderFlights P sortedFlights m [loadingRow] = (rows, None)"
        by blast
      with block have "loadFlights P net pg = pg\<lparr>tableBody := rows\<rparr>"
        by (simp add: loadFlights_def)
      with rows(1) have "completeTable P m sortedFlights (tableBody (loadFlights P net pg)) \<and>
          console (loadFlights P net pg) = console pg"
        by simp
      with read sel show ?thesis by blast
    next
      assume "\<exists>rows e'. renderFlights P sortedFlights m [loadingRow] = (rows, Some e')"
      then obtain rows e' where "renderFlights P sortedFlights m [loadingRow] = (rows, Some e')"
        by blast
      with block have "loadFlights P net pg = errorPage pg e'"
        by (simp add: loadFlights_def errorPage_def)
      then show ?thesis by blast
    qed
  qed
  from c1 c2 c3 c4 c5 c6 c7 c8 show ?thesis by (intro conjI impI)
qed

lemma demo_rows:
  "flightRow demoPlatform demoDirectory demoD0 =
     Inr (FlightRow ''14 Jun 09:30'' (Str ''D0'') ''D0401'' ''Arrival'' ''LEJ'' (Str []))"
  "flightRow demoPlatform demoDirectory demoFX =
     Inr (FlightRow ''14 Jun 10:45'' (Str ''Federal Express Cargo'') ''FX5024'' ''Arrival''
            ''CDG'' (Str []))"
  "flightRow demoPlatform demoDirectory demo5X =
     Inr (FlightRow ''14 Jun 10:45'' (Str ''5X'') ''5X226'' ''Departure'' ''CGN''
            (Str ''New time''))"
  "flightRow demoPlatform demoDirectory demoQR =
     Inr (FlightRow ''14 Jun 12:15'' (Str ''QR'') ''QR8156'' ''Arrival'' ''DOH''
            (Str ''New time 14 Jun 11:00''))"
  "flightRow demoPlatform demoDirectory demoGapLate =
     Inr (FlightRow ''14 Jun 10:45'' (Str ''QR'') ''QR101'' ''Departure'' [] (Str []))"
  "flightRow demoPlatform demoDirectory demoSoon = Inl (RangeError ''Invalid time value'')"
  by (simp_all add: flightRow_def formatLocalTime_def getStatusDescription_def Let_def
      demoPlatform_def demoDateValue_def demoFormatToParts_def demoParts_def demoDirectory_def
      getProperty_def orElse_def objectPrototypeKeys_def statusMap_def
      demoD0_def demoFX_def demo5X_def demoQR_def demoGapLate_def demoSoon_def)

lemma soon_parse: "parseFromString demoPlatform demoSoonXml = demoSoonDoc"
  by (simp add: demoPlatform_def demoParse_def demoGapXml_def demoFlightsXml_def
      demoAirlinesXml_def demoSoonXml_def)

lemma soon_trim: "trim ''QR104'' = ''QR104''" "trim ''soon'' = ''soon''"
  by (simp_all add: trim_def trimStart_def trimEnd_def dropTokens.simps leadingToken_def
      whiteSpaceCodes_def)

lemma soon_parseFlights: "parseFlights demoPlatform demoSoonXml = Inr [demoGapLate, demoSoon]"
proof -
  have "toUpperCase ''QR'' = ''QR''"
    by (simp add: toUpperCase_def upperChar_def lowerLetters_def upperLetters_def)
  then show ?thesis
    by (simp add: parseFlights_eq soon_parse demoSoonDoc_def docElementsByTagName_def leaf_def
        flightRecord_def getText_def gap_trim soon_trim demo_trim demoGapLate_def demoSoon_def)
qed

lemma soon_sort:
  "arraySort demoPlatform (compareSchedule demoPlatform) [demoGapLate, demoSoon] =
     [demoGapLate, demoSoon]"
proof -
  have "arraySort demoPlatform = v8Sort" by (simp add: demoPlatform_def)
  moreover have "scheduleValue demoPlatform demoGapLate = Some 1718354700000"
      "scheduleValue demoPlatform demoSoon = None"
    by (simp_all add: scheduleValue_def demoPlatform_def demoDateValue_def demoGapLate_def
        demoSoon_def)
  ultimately show ?thesis
    by (simp add: v8Sort_def sortCompare_def compareSchedule_values binaryInsertionSort.simps
        Let_def)
qed

lemma soon_isCargo: "filterCargo demoDirectory [demoGapLate, demoSoon] = Inr [demoGapLate, demoSoon]"
    by (simp add: isCargoFlight_def CARGO_CODES_def demoGapLate_def demoSoon_def)

text \<open>
  The seven networks of the examples, from the empty page. The flight request fails in
  transport; both requests fail, the directory request first; reading the flight body
  fails; reading the directory body fails; the flight request is answered with status 500
  and a body without flights; both feeds arrive, and the four cargo flights are shown in
  the order of their times; the feed with the time that is no date arrives, its first
  flight renders to a row, the second throws, and the error row is all that is left.
\<close>

theorem loadFlights_outcome_witness:
  "loadFlights demoPlatform demoNetOffline emptyPage =
     \<lparr> tableBody = [MessageRow ''Error fetching flight data: Failed to fetch''],
       console = [TypeError ''Failed to fetch''] \<rparr> \<and>
   loadFlights demoPlatform demoNetBothDown emptyPage =
     \<lparr> tableBody = [MessageRow ''Error fetching flight data: Load failed''],
       console = [TypeError ''Load failed''] \<rparr> \<and>
   loadFlights demoPlatform demoNetFlightsLost emptyPage =
     \<lparr> tableBody = [MessageRow ''Error fetching flight data: network error''],
       console = [TypeError ''network error''] \<rparr> \<and>
   loadFlights demoPlatform demoNetDirectoryLost emptyPage =
     \<lparr> tableBody = [MessageRow ''Error fetching flight data: body stream lost''],
       console = [TypeError ''body stream lost''] \<rparr> \<and>
   transportFailure demoNetOffline \<and> transportFailure demoNetBothDown \<and>
   transportFailure demoNetFlightsLost \<and> transportFailure demoNetDirectoryLost \<and>
   loadFlights demoPlatform demoNet500 emptyPage =
     loadFlights demoPlatform
       (demoNet500\<lparr>flightFetch := Fulfilled (Response 200 (Fulfilled ''Internal Server Error''))\<rparr>)
       emptyPage \<and>
   loadFlights demoPlatform demoNetOk emptyPage =
     \<lparr> tableBody =
         [FlightRow ''14 Jun 09:30'' (Str ''D0'') ''D0401'' ''Arrival'' ''LEJ'' (Str []),
          FlightRow ''14 Jun 10:45'' (Str ''Federal Express Cargo'') ''FX5024'' ''Arrival''
            ''CDG'' (Str []),
          FlightRow ''14 Jun 10:45'' (Str ''5X'') ''5X226'' ''Departure'' ''CGN''
            (Str ''New time''),
          FlightRow ''14 Jun 12:15'' (Str ''QR'') ''QR8156'' ''Arrival'' ''DOH''
            (Str ''New time 14 Jun 11:00'')],
       console = [] \<rparr> \<and>
   flightRow demoPlatform demoDirectory demoGapLate =
     Inr (FlightRow ''14 Jun 10:45'' (Str ''QR'') ''QR101'' ''Departure'' [] (Str [])) \<and>
   flightRow demoPlatform demoDirectory demoSoon = Inl (RangeError ''Invalid time value'') \<and>
   loadFlights demoPlatform demoNetSoon emptyPage =
     \<lparr> tableBody = [MessageRow ''Error fetching flight data: Invalid time value''],
       console = [RangeError ''Invalid time value''] \<rparr>"
proof -
  note outcome = loadFlights_outcome [where P = demoPlatform and pg = emptyPage]
  have offline: "flightFetch demoNetOffline = Rejected (TypeError ''Failed to fetch'') \<and>
      \<not> (rejected (airlinesFetch demoNetOffline) \<and> airlinesRejectsFirst demoNetOffline)"
    by (simp add: demoNetOffline_def)
  have "loadFlights demoPlatform demoNetOffline emptyPage =
          errorPage emptyPage (TypeError ''Failed to fetch'')"
    using outcome [THEN conjunct1, THEN mp, OF offline] .
  then have r1: "loadFlights demoPlatform demoNetOffline emptyPage =
     \<lparr> tableBody = [MessageRow ''Error fetching flight data: Failed to fetch''],
       console = [TypeError ''Failed to fetch''] \<rparr>"
    by (simp add: errorPage_def emptyPage_def)
  have both: "airlinesFetch demoNetBothDown = Rejected (TypeError ''Load failed'') \<and>
      (rejected (flightFetch demoNetBothDown) \<longrightarrow> airlinesRejectsFirst demoNetBothDown)"
    by (simp add: demoNetBothDown_def)
  have "loadFlights demoPlatform demoNetBothDown emptyPage =
          errorPage emptyPage (TypeError ''Load failed'')"
    using outcome [THEN conjunct2, THEN conjunct1, THEN mp, OF both] .
  then have r2: "loadFlights demoPlatform demoNetBothDown emptyPage =
     \<lparr> tableBody = [MessageRow ''Error fetching flight data: Load failed''],
       console = [TypeError ''Load failed''] \<rparr>"
    by (simp add: errorPage_def emptyPage_def)
  have lost: "flightFetch demoNetFlightsLost =
        Fulfilled (Response 200 (Rejected (TypeError ''network error''))) \<and>
      airlinesFetch demoNetFlightsLost = Fulfilled (Response 200 (Fulfilled demoAirlinesXml)) \<and>
      bodyText (Response 200 (Rejected (TypeError ''network error''))) =
        Rejected (TypeError ''network error'')"
    by (simp add: demoNetFlightsLost_def)
  have "loadFlights demoPlatform demoNetFlightsLost emptyPage =
          errorPage emptyPage (TypeError ''network error'')"
    using outcome [THEN conjunct2, THEN conjunct2, THEN conjunct1, THEN mp, OF lost] .
  then have r3: "loadFlights demoPlatform demoNetFlightsLost emptyPage =
     \<lparr> tableBody = [MessageRow ''Error fetching flight data: network error''],
       console = [TypeError ''network error''] \<rparr>"
    by (simp add: errorPage_def emptyPage_def)
  have dir: "flightFetch demoNetDirectoryLost =
        Fulfilled (Response 200 (Fulfilled demoFlightsXml)) \<and>
      airlinesFetch demoNetDirectoryLost =
        Fulfilled (Response 200 (Rejected (TypeError ''body stream lost''))) \<and>
      bodyText (Response 200 (Fulfilled demoFlightsXml)) = Fulfilled demoFlightsXml \<and>
      bodyText (Response 200 (Rejected (TypeError ''body stream lost''))) =
        Rejected (TypeError ''body stream lost'')"
    by (simp add: demoNetDirectoryLost_def)
  have "loadFlights demoPlatform demoNetDirectoryLost emptyPage =
          errorPage emptyPage (TypeError ''body stream lost'')"
    using outcome [THEN conjunct2, THEN conjunct2, THEN conjunct2, THEN conjunct1, THEN mp,
        OF dir] .
  then have r4: "loadFlights demoPlatform demoNetDirectoryLost emptyPage =
     \<lparr> tableBody = [MessageRow ''Error fetching flight data: body stream lost''],
       console = [TypeError ''body stream lost''] \<rparr>"
    by (simp add: errorPage_def emptyPage_def)
  have fails: "transportFailure demoNetOffline" "transportFailure demoNetBothDown"
      "transportFailure demoNetFlightsLost" "transportFailure demoNetDirectoryLost"
    by (simp_all add: transportFailure_def demoNetOffline_def demoNetBothDown_def
        demoNetFlightsLost_def demoNetDirectoryLost_def)
  note status = outcome [where net = demoNet500, THEN conjunct2, THEN conjunct2, THEN conjunct2,
      THEN conjunct2, THEN conjunct2, THEN conjunct1]
  have "loadFlights demoPlatform
          (demoNet500\<lparr>flightFetch := Fulfilled (Response 500 (Fulfilled ''Internal Server Error'')),
             airlinesFetch := Fulfilled (Response 200 (Fulfilled demoAirlinesXml))\<rparr>) emptyPage =
        loadFlights demoPlatform
          (demoNet500\<lparr>flightFetch := Fulfilled (Response 200 (Fulfilled ''Internal Server Error'')),
             airlinesFetch := Fulfilled (Response 200 (Fulfilled demoAirlinesXml))\<rparr>) emptyPage"
    by (rule status [rule_format])
  moreover
  have "demoNet500\<lparr>flightFetch := Fulfilled (Response 500 (Fulfilled ''Internal Server Error'')),
          airlinesFetch := Fulfilled (Response 200 (Fulfilled demoAirlinesXml))\<rparr> = demoNet500"
    and "demoNet500\<lparr>flightFetch := Fulfilled (Response 200 (Fulfilled ''Internal Server Error'')),
          airlinesFetch := Fulfilled (Response 200 (Fulfilled demoAirlinesXml))\<rparr> =
        demoNet500\<lparr>flightFetch := Fulfilled (Response 200 (Fulfilled ''Internal Server Error''))\<rparr>"
    by (simp_all add: demoNet500_def)
  ultimately have r5: "loadFlights demoPlatform demoNet500 emptyPage =
     loadFlights demoPlatform
       (demoNet500\<lparr>flightFetch := Fulfilled (Response 200 (Fulfilled ''Internal Server Error''))\<rparr>)
       emptyPage"
    by simp
  have ok: "flightFetch demoNetOk = Fulfilled (Response 200 (Fulfilled demoFlightsXml)) \<and>
      airlinesFetch demoNetOk = Fulfilled (Response 200 (Fulfilled demoAirlinesXml)) \<and>
      bodyText (Response 200 (Fulfilled demoFlightsXml)) = Fulfilled demoFlightsXml \<and>
      bodyText (Response 200 (Fulfilled demoAirlinesXml)) = Fulfilled demoAirlinesXml"
    by (simp add: demoNetOk_def)
  let ?rows = "[FlightRow ''14 Jun 09:30'' (Str ''D0'') ''D0401'' ''Arrival'' ''LEJ'' (Str []),
          FlightRow ''14 Jun 10:45'' (Str ''Federal Express Cargo'') ''FX5024'' ''Arrival''
            ''CDG'' (Str []),
          FlightRow ''14 Jun 10:45'' (Str ''5X'') ''5X226'' ''Departure'' ''CGN''
            (Str ''New time''),
          FlightRow ''14 Jun 12:15'' (Str ''QR'') ''QR8156'' ''Arrival'' ''DOH''
            (Str ''New time 14 Jun 11:00'')]"
  from outcome [THEN conjunct2, THEN conjunct2, THEN conjunct2, THEN conjunct2, THEN conjunct2,
      THEN conjunct2, THEN conjunct1, THEN mp, OF ok]
  obtain m allFlights cargoFlights where
    "parseAirlineNames demoPlatform demoAirlinesXml = Inr m"
    "parseFlights demoPlatform demoFlightsXml = Inr allFlights"
    "filterCargo m allFlights = Inr cargoFlights"
    and complete: "\<And>rows. completeTable demoPlatform m
          (arraySort demoPlatform (compareSchedule demoPlatform) cargoFlights) rows \<Longrightarrow>
        loadFlights demoPlatform demoNetOk emptyPage = emptyPage\<lparr>tableBody := rows\<rparr>"
    by blast
  moreover have "filterCargo demoDirectory [demoQR, demoDY, demoFX, demo5X, demoBlank, demoD0]
      = Inr [demoQR, demoFX, demo5X, demoD0]"
    by (simp add: demo_isCargo)
  ultimately have "m = demoDirectory" and "cargoFlights = [demoQR, demoFX, demo5X, demoD0]"
    by (simp_all add: demo_directory demo_parseFlights)
  moreover have "completeTable demoPlatform demoDirectory [demoD0, demoFX, demo5X, demoQR] ?rows"
    by (simp add: completeTable_def demo_rows)
  ultimately have "loadFlights demoPlatform demoNetOk emptyPage = emptyPage\<lparr>tableBody := ?rows\<rparr>"
    using complete by (simp add: demo_sort)
  then have r6: "loadFlights demoPlatform demoNetOk emptyPage =
      \<lparr> tableBody = ?rows, console = [] \<rparr>"
    by (simp add: emptyPage_def)
  have soon: "flightFetch demoNetSoon = Fulfilled (Response 200 (Fulfilled demoSoonXml)) \<and>
      airlinesFetch demoNetSoon = Fulfilled (Response 200 (Fulfilled demoAirlinesXml)) \<and>
      bodyText (Response 200 (Fulfilled demoSoonXml)) = Fulfilled demoSoonXml \<and>
      bodyText (Response 200 (Fulfilled demoAirlinesXml)) = Fulfilled demoAirlinesXml"
    by (simp add: demoNetSoon_def)
  from outcome [THEN conjunct2, THEN conjunct2, THEN conjunct2, THEN conjunct2, THEN conjunct2,
      THEN conjunct2, THEN conjunct1, THEN mp, OF soon]
  obtain m' allFlights' cargoFlights' where
    dir': "parseAirlineNames demoPlatform demoAirlinesXml = Inr m'"
    and all': "parseFlights demoPlatform demoSoonXml = Inr allFlights'"
    and cargo': "filterCargo m' allFlights' = Inr cargoFlights'"
    and failing: "\<And>shown rows f rest e'.
        arraySort demoPlatform (compareSchedule demoPlatform) cargoFlights' = shown @ f # rest \<and>
        map (flightRow demoPlatform m') shown = map Inr rows \<and>
        flightRow demoPlatform m' f = Inl e' \<Longrightarrow>
        loadFlights demoPlatform demoNetSoon emptyPage = errorPage emptyPage e'"
    by blast
  from dir' have m': "m' = demoDirectory" by (simp add: demo_directory)
  from all' have "allFlights' = [demoGapLate, demoSoon]" by (simp add: soon_parseFlights)
  with cargo' have c': "cargoFlights' = [demoGapLate, demoSoon]"
    unfolding m' by (simp only: soon_isCargo sum.inject)
  have "arraySort demoPlatform (compareSchedule demoPlatform) cargoFlights' =
          [demoGapLate] @ demoSoon # [] \<and>
      map (flightRow demoPlatform m') [demoGapLate] =
        map Inr [FlightRow ''14 Jun 10:45'' (Str ''QR'') ''QR101'' ''Departure'' [] (Str [])] \<and>
      flightRow demoPlatform m' demoSoon = Inl (RangeError ''Invalid time value'')"
    unfolding m' c' by (simp add: soon_sort demo_rows)
  then have "loadFlights demoPlatform demoNetSoon emptyPage =
      errorPage emptyPage (RangeError ''Invalid time value'')"
    by (rule failing)
  then have r7: "loadFlights demoPlatform demoNetSoon emptyPage =
     \<lparr> tableBody = [MessageRow ''Error fetching flight data: Invalid time value''],
       console = [RangeError ''Invalid time value''] \<rparr>"
    by (simp add: errorPage_def emptyPage_def)
  from r1 r2 r3 r4 fails r5 r6 r7 demo_rows(5,6) show ?thesis by (intro conjI)
qed

end
